theory Spec2Isabelle
  imports Main
begin

section \<open>Data model of \<^verbatim>\<open>packages/bff/src/codegen.ts\<close>\<close>

text \<open>
  The generator reads a \<^verbatim>\<open>FormatResult\<close>: a registry \<^verbatim>\<open>types\<close> from type ids to type
  descriptors and a tree \<^verbatim>\<open>entries\<close> of endpoints. Both are JavaScript objects that the code
  walks with \<^verbatim>\<open>Object.entries\<close>, so they are association lists here, in enumeration order;
  \<^verbatim>\<open>types[typeId]\<close> is \<open>map_of\<close>. Type ids are the numeric keys of the registry.
\<close>

type_synonym typeId = nat

text \<open>The \<^verbatim>\<open>description?\<close> and \<^verbatim>\<open>deprecated?\<close> attributes that \<^verbatim>\<open>attachComment\<close> reads
  from a field or an endpoint.\<close>

datatype options = Options (description: "string option") (deprecated: "string option")

datatype field = Field (fieldTypeId: typeId) (fieldOptions: options)

text \<open>The \<^verbatim>\<open>value\<close> of a Literal descriptor. A number is an integer here; other numbers,
  which JavaScript prints differently, play no role in what follows.\<close>

datatype literal = LString string | LNumber int | LBoolean bool

text \<open>The \<^verbatim>\<open>type\<close> tag of a descriptor with its payload. The constructors are the tags of
  the source, prefixed with \<open>T\<close>.\<close>

datatype kind =
    TAny | TJSON | TString | TBoolean | TFloat | TID | TInt | TNumber | TUnknown
  | TLiteral literal
  | TRecord typeId
  | TNullable typeId
  | TList typeId
  | TUnion "typeId list"
  | TIntersect "typeId list"
  | TObject "(string \<times> field) list"
  | TStruct "(string \<times> field) list"

datatype FormatType = FormatType (ftype: kind) (name: "string option")

type_synonym FormatTypes = "(typeId \<times> FormatType) list"

datatype entry =
    Api (apiInput: typeId) (apiOutput: typeId) (apiOptions: options)
  | Entries "(string \<times> entry) list"

datatype FormatResult =
  FormatResult (resultTypes: FormatTypes) (resultEntries: "(string \<times> entry) list")

text \<open>Every \<^verbatim>\<open>throw\<close> of the source is an error value. A call that does not return within
  the recursion depth it is given is \<open>None\<close>.\<close>

datatype error =
    LookupFailure typeId
  | UnsupportedField FormatType
  | UnsupportedType FormatType
  | DuplicateName string
  | FormatFailure

type_synonym 'a result = "(error + 'a) option"

definition ok :: "'a \<Rightarrow> 'a result" where
  "ok x = Some (Inr x)"

definition throw :: "error \<Rightarrow> 'a result" where
  "throw e = Some (Inl e)"

fun bind :: "'a result \<Rightarrow> ('a \<Rightarrow> 'b result) \<Rightarrow> 'b result" where
  "bind None f = None"
| "bind (Some (Inl e)) f = Some (Inl e)"
| "bind (Some (Inr x)) f = f x"

text \<open>\<^verbatim>\<open>xs.map(f)\<close> where \<open>f\<close> may throw: the elements are visited left to right and
  the first call that fails or does not return ends the whole call.\<close>

fun sequence :: "'a result list \<Rightarrow> 'a list result" where
  "sequence [] = ok []"
| "sequence (r # rs) = bind r (\<lambda>y. bind (sequence rs) (\<lambda>ys. ok (y # ys)))"

abbreviation mapM :: "('a \<Rightarrow> 'b result) \<Rightarrow> 'a list \<Rightarrow> 'b list result" where
  "mapM f xs \<equiv> sequence (map f xs)"

text \<open>\<^verbatim>\<open>Array.prototype.join\<close>.\<close>

fun join :: "string \<Rightarrow> string list \<Rightarrow> string" where
  "join sep [] = []"
| "join sep [x] = x"
| "join sep (x # y # ys) = x @ sep @ join sep (y # ys)"

text \<open>A number in a template literal: its decimal digits, most significant first.\<close>

definition digit :: "nat \<Rightarrow> char" where
  "digit d = char_of (of_char CHR ''0'' + d :: nat)"

fun decimal :: "nat \<Rightarrow> string" where
  "decimal n = (if n div 10 = 0 then [] else decimal (n div 10)) @ [digit (n mod 10)]"

declare decimal.simps [simp del]

definition string_of_int :: "int \<Rightarrow> string" where
  "string_of_int i = (if i < 0 then ''-'' @ decimal (nat (- i)) else decimal (nat i))"

text \<open>The test \<^verbatim>\<open>if (typeName)\<close>: an absent name and the empty string are both falsy.\<close>

fun truthy :: "string option \<Rightarrow> string option" where
  "truthy None = None"
| "truthy (Some s) = (if s = [] then None else Some s)"

section \<open>Helpers imported from \<^verbatim>\<open>./formater\<close>\<close>

text \<open>Modelled from the spec: \<^verbatim>\<open>getTypeName\<close> of \<^verbatim>\<open>./formater\<close> is not among the sources.
  The spec: each descriptor may optionally carry a display name, and the resolver returns
  that name when the descriptor has one.\<close>

definition getTypeName :: "FormatType \<Rightarrow> string option" where
  "getTypeName fieldType = name fieldType"

text \<open>Modelled from the spec: \<^verbatim>\<open>isInlineType\<close> of \<^verbatim>\<open>./formater\<close> is not among the sources.
  The spec: the kinds that are not inline-eligible are Object and Struct; every other
  descriptor is skipped by the declaration emitter and rendered inline by the resolver.\<close>

fun isInlineType :: "FormatType \<Rightarrow> bool" where
  "isInlineType (FormatType (TObject fs) nm) = False"
| "isInlineType (FormatType (TStruct fs) nm) = False"
| "isInlineType (FormatType k nm) = True"

section \<open>The generator\<close>

definition dquote :: string where
  "dquote = [CHR 0x22]"

definition attachComment :: "string \<Rightarrow> options \<Rightarrow> string" where
  "attachComment result opts =
     (if truthy (deprecated opts) = None \<and> truthy (description opts) = None then result
      else
        let list = filter (\<lambda>s. s \<noteq> [])
              [case truthy (description opts) of Some d \<Rightarrow> ''* @remarks '' @ d | None \<Rightarrow> [],
               case truthy (deprecated opts) of Some d \<Rightarrow> ''* @depcreated '' @ d | None \<Rightarrow> []];
            comment = ''/**\<newline>'' @ join ''\<newline>'' list @ ''\<newline>*/\<newline>''
        in comment @ result)"

definition getTypeNameById :: "typeId \<Rightarrow> string" where
  "getTypeNameById typeId = ''Type'' @ decimal typeId"

definition renderLiteral :: "literal \<Rightarrow> string" where
  "renderLiteral v =
     (case v of
        LString s \<Rightarrow> dquote @ s @ dquote
      | LNumber i \<Rightarrow> string_of_int i
      | LBoolean b \<Rightarrow> (if b then ''true'' else ''false''))"

text \<open>Modelled from the spec: what \<^verbatim>\<open>getTypeName\<close> and \<^verbatim>\<open>isInlineType\<close> do with the
  \<^verbatim>\<open>undefined\<close> that \<^verbatim>\<open>types[typeId]\<close> yields for an absent id is not among the sources.
  The spec: the lookup fails (unhandled) if the id is absent from the registry.\<close>

definition lookup :: "FormatTypes \<Rightarrow> typeId \<Rightarrow> FormatType result" where
  "lookup types typeId =
     (case map_of types typeId of None \<Rightarrow> throw (LookupFailure typeId) | Some t \<Rightarrow> ok t)"

text \<open>\<^verbatim>\<open>getFieldType\<close>. The first argument bounds the depth of the recursion, which the
  source does not bound. The \<^verbatim>\<open>Record\<close> branch calls \<^verbatim>\<open>getFieldType(typeId, types)\<close>, with
  the id of the record itself, as the source has it.\<close>

fun getFieldType :: "nat \<Rightarrow> typeId \<Rightarrow> FormatTypes \<Rightarrow> string result" where
  "getFieldType 0 typeId types = None"
| "getFieldType (Suc n) typeId types =
     bind (lookup types typeId) (\<lambda>fieldType.
       case truthy (getTypeName fieldType) of
         Some typeName \<Rightarrow> ok typeName
       | None \<Rightarrow>
           if \<not> isInlineType fieldType then ok (getTypeNameById typeId)
           else
             (case ftype fieldType of
                TAny \<Rightarrow> ok ''any''
              | TJSON \<Rightarrow> ok ''JsonType''
              | TString \<Rightarrow> ok ''string''
              | TBoolean \<Rightarrow> ok ''boolean''
              | TFloat \<Rightarrow> ok ''number''
              | TID \<Rightarrow> ok ''string''
              | TInt \<Rightarrow> ok ''number''
              | TNumber \<Rightarrow> ok ''number''
              | TRecord itemTypeId \<Rightarrow>
                  bind (getFieldType n typeId types)
                    (\<lambda>item. ok (''Record<string, '' @ item @ ''>''))
              | TUnknown \<Rightarrow> ok ''unknown''
              | TLiteral v \<Rightarrow> ok (renderLiteral v)
              | TNullable itemTypeId \<Rightarrow>
                  bind (getFieldType n itemTypeId types)
                    (\<lambda>item. ok (item @ '' | null | undefined''))
              | TList itemTypeId \<Rightarrow>
                  bind (getFieldType n itemTypeId types) (\<lambda>item. ok (item @ ''[]''))
              | TUnion itemTypeIds \<Rightarrow>
                  bind (mapM (\<lambda>typeId. getFieldType n typeId types) itemTypeIds)
                    (\<lambda>items. ok (join '' | '' items))
              | TIntersect itemTypeIds \<Rightarrow>
                  bind (mapM (\<lambda>typeId. getFieldType n typeId types) itemTypeIds)
                    (\<lambda>items. ok (join '' & '' items))
              | _ \<Rightarrow> throw (UnsupportedField fieldType)))"


text \<open>The field list of an Object or Struct descriptor: the test
  \<^verbatim>\<open>formatType.type === 'Object' || formatType.type === 'Struct'\<close>.\<close>

fun objectFields :: "kind \<Rightarrow> (string \<times> field) list option" where
  "objectFields (TObject fields) = Some fields"
| "objectFields (TStruct fields) = Some fields"
| "objectFields k = None"

text \<open>The local \<^verbatim>\<open>fileds\<close> of \<^verbatim>\<open>handleType\<close>:
  \<^verbatim>\<open>Object.entries(formatType.fields).map(([key, field]) => ...)\<close>.\<close>

definition handleFields :: "nat \<Rightarrow> FormatTypes \<Rightarrow> (string \<times> field) list \<Rightarrow> string list result" where
  "handleFields n types fields =
     mapM (\<lambda>(key, field).
        bind (getFieldType n (fieldTypeId field) types)
          (\<lambda>result. ok (attachComment (key @ '': '' @ result) (fieldOptions field))))
      fields"

text \<open>The two template literals that \<^verbatim>\<open>handleType\<close> returns: the exported declaration of
  a descriptor with a display name, and the declaration under the id-derived name.\<close>

definition sourceOfExportType :: "string \<Rightarrow> string list \<Rightarrow> string" where
  "sourceOfExportType typeName fileds =
     ''\<newline>        export type '' @ typeName @ '' = {\<newline>          ''
     @ join '',  \<newline>'' fileds @ ''\<newline>        }\<newline>        ''"

definition sourceOfType :: "typeId \<Rightarrow> string list \<Rightarrow> string" where
  "sourceOfType typeId fileds =
     ''type '' @ getTypeNameById typeId @ '' = {\<newline>        ''
     @ join '',  \<newline>'' fileds @ ''\<newline>      }\<newline>      ''"

text \<open>\<^verbatim>\<open>handleType\<close>, a closure over the set \<^verbatim>\<open>exportSet\<close> that it updates: the set is an
  argument and is returned with the declaration text.\<close>

definition handleType ::
  "nat \<Rightarrow> FormatTypes \<Rightarrow> string set \<Rightarrow> typeId \<Rightarrow> FormatType \<Rightarrow> (string set \<times> string) result" where
  "handleType n types exportSet typeId formatType =
     (if isInlineType formatType then ok (exportSet, [])
      else
        case objectFields (ftype formatType) of
          Some fields \<Rightarrow>
            bind (handleFields n types fields)
              (\<lambda>fileds.
                 case truthy (getTypeName formatType) of
                   Some typeName \<Rightarrow>
                     if typeName \<in> exportSet then throw (DuplicateName typeName)
                     else ok (insert typeName exportSet, sourceOfExportType typeName fileds)
                 | None \<Rightarrow> ok (exportSet, sourceOfType typeId fileds))
        | None \<Rightarrow> throw (UnsupportedType formatType))"

text \<open>\<^verbatim>\<open>handleTypes\<close>: \<^verbatim>\<open>Object.entries(formatTypes).map(...)\<close>, the entries in order, each
  call seeing the export set its predecessors left.\<close>

fun handleTypes ::
  "nat \<Rightarrow> FormatTypes \<Rightarrow> string set \<Rightarrow> (typeId \<times> FormatType) list \<Rightarrow> (string set \<times> string list) result" where
  "handleTypes n types exportSet [] = ok (exportSet, [])"
| "handleTypes n types exportSet ((typeId, formatType) # rest) =
     bind (handleType n types exportSet typeId formatType) (\<lambda>(exportSet', d).
       bind (handleTypes n types exportSet' rest) (\<lambda>(exportSet'', ds).
         ok (exportSet'', d # ds)))"

text \<open>The template literal of \<^verbatim>\<open>handleApi\<close>.\<close>

definition sourceOfApi :: "string \<Rightarrow> string \<Rightarrow> string" where
  "sourceOfApi inputType outputType = ''(input: '' @ inputType @ '') => Promise<'' @ outputType @ ''>''"

definition handleApi :: "nat \<Rightarrow> FormatTypes \<Rightarrow> typeId \<Rightarrow> typeId \<Rightarrow> string result" where
  "handleApi n types inputTypeId outputTypeId =
     bind (getFieldType n inputTypeId types) (\<lambda>inputType.
       bind (getFieldType n outputTypeId types) (\<lambda>outputType.
         ok (sourceOfApi inputType outputType)))"

text \<open>The template literal that \<^verbatim>\<open>handleEntries\<close> returns.\<close>

definition sourceOfEntries :: "string list \<Rightarrow> string" where
  "sourceOfEntries fields =
     ''\<newline>    {\<newline>      '' @ join '',\<newline>'' fields @ ''\<newline>    }\<newline>    ''"

text \<open>\<^verbatim>\<open>handleEntries\<close>, on the \<^verbatim>\<open>entries\<close> object of a namespace node.\<close>

fun handleEntries :: "nat \<Rightarrow> FormatTypes \<Rightarrow> (string \<times> entry) list \<Rightarrow> string result" where
  "handleEntries n types entries =
     bind (mapM (\<lambda>(key, field).
             case field of
               Api inputTypeId outputTypeId opts \<Rightarrow>
                 bind (handleApi n types inputTypeId outputTypeId)
                   (\<lambda>result. ok (attachComment (key @ '': '' @ result) opts))
             | Entries sub \<Rightarrow>
                 bind (handleEntries n types sub) (\<lambda>result. ok (key @ '': '' @ result)))
           entries)
       (\<lambda>fields. ok (sourceOfEntries fields))"

definition hasJsonType :: "FormatTypes \<Rightarrow> bool" where
  "hasJsonType types = list_ex (\<lambda>(typeId, item). ftype item = TJSON) types"

definition sourceOfJsonType :: string where
  "sourceOfJsonType =
     ''\<newline>  type JsonType =\<newline>    | number\<newline>    | string\<newline>    | boolean\<newline>    | null\<newline>    | undefined\<newline>    | JsonType[]\<newline>    | {\<newline>        toJSON(): string\<newline>      }\<newline>    | {\<newline>        [key: string]: JsonType\<newline>      }\<newline>  ''"

text \<open>The template literal \<^verbatim>\<open>source\<close> that \<^verbatim>\<open>codegen\<close> assembles.\<close>

definition sourceOfModule :: "bool \<Rightarrow> string list \<Rightarrow> string \<Rightarrow> string" where
  "sourceOfModule hasJson definitions entries =
     ''\<newline>    '' @ (if hasJson then sourceOfJsonType else [])
     @ ''\<newline>\<newline>    '' @ join ''\<newline>\<newline>'' definitions
     @ ''\<newline>\<newline>    export type __API__ = '' @ entries @ ''\<newline>  ''"

text \<open>\<^verbatim>\<open>codegen\<close> up to the text it hands to \<^verbatim>\<open>prettier.format\<close>: the declarations first,
  then the endpoint tree, then the scan for a JSON descriptor.\<close>

definition codegenSource :: "nat \<Rightarrow> FormatResult \<Rightarrow> string result" where
  "codegenSource n formatResult =
     bind (handleTypes n (resultTypes formatResult) {} (resultTypes formatResult))
       (\<lambda>(exportSet, definitions).
          bind (handleEntries n (resultTypes formatResult) (resultEntries formatResult))
            (\<lambda>entries.
               ok (sourceOfModule (hasJsonType (resultTypes formatResult)) definitions entries)))"

text \<open>\<^verbatim>\<open>codegen\<close>. The formatter \<^verbatim>\<open>prettier.format\<close> is a library outside the repository: it
  is the parameter \<open>format\<close>, which returns \<open>None\<close> where the formatter rejects the text.\<close>

definition codegen :: "(string \<Rightarrow> string option) \<Rightarrow> nat \<Rightarrow> FormatResult \<Rightarrow> string result" where
  "codegen format n formatResult =
     bind (codegenSource n formatResult) (\<lambda>source.
       case format source of None \<Rightarrow> throw FormatFailure | Some formatted \<Rightarrow> ok formatted)"


section \<open>Auxiliary notions for the statements\<close>

text \<open>The display names that \<^verbatim>\<open>handleTypes\<close> exports for a list of registry entries: the
  truthy names of its Object and Struct descriptors, in order.\<close>

fun exportNames :: "(typeId \<times> FormatType) list \<Rightarrow> string list" where
  "exportNames [] = []"
| "exportNames ((typeId, formatType) # rest) =
     (case objectFields (ftype formatType) of
        None \<Rightarrow> exportNames rest
      | Some fields \<Rightarrow>
          (case truthy (name formatType) of
             None \<Rightarrow> exportNames rest
           | Some typeName \<Rightarrow> typeName # exportNames rest))"

text \<open>Every field of every Object or Struct descriptor among the entries resolves at
  depth \<open>n\<close>.\<close>

definition fieldsResolve :: "nat \<Rightarrow> FormatTypes \<Rightarrow> (typeId \<times> FormatType) list \<Rightarrow> bool" where
  "fieldsResolve n types es =
     (\<forall>(typeId, formatType) \<in> set es. \<forall>fields. objectFields (ftype formatType) = Some fields \<longrightarrow>
        (\<forall>(key, field) \<in> set fields. \<exists>t. getFieldType n (fieldTypeId field) types = ok t))"





text \<open>The number of places of a text at which a given text starts.\<close>

fun startsWith :: "string \<Rightarrow> string \<Rightarrow> bool" where
  "startsWith s [] = True"
| "startsWith [] (c # p) = False"
| "startsWith (d # s) (c # p) = (d = c \<and> startsWith s p)"









section \<open>Basic facts about results\<close>

lemma bind_ok [simp]: "bind (ok x) f = f x"
  by (simp add: ok_def)

lemma bind_throw [simp]: "bind (throw e) f = throw e"
  by (simp add: throw_def)

lemma ok_neq [simp]: "ok x \<noteq> None" "ok x \<noteq> throw e" "throw e \<noteq> None" "throw e \<noteq> ok x"
  "None \<noteq> ok x" "None \<noteq> throw e"
  by (simp_all add: ok_def throw_def)

lemma ok_inject [simp]: "ok x = ok y \<longleftrightarrow> x = y"
  by (simp add: ok_def)

lemma throw_inject [simp]: "throw e = throw e' \<longleftrightarrow> e = e'"
  by (simp add: throw_def)

lemma result_cases:
  obtains (Diverges) "r = None" | (Throws) e where "r = throw e" | (Returns) x where "r = ok x"
proof (cases r)
  case None
  then show ?thesis by (rule Diverges)
next
  case (Some a)
  then show ?thesis by (cases a) (auto simp: ok_def throw_def intro: Throws Returns)
qed

lemma bind_eq_ok:
  "bind m f = ok y \<longleftrightarrow> (\<exists>x. m = ok x \<and> f x = ok y)"
  by (cases m rule: result_cases) auto

lemma lookup_Some [simp]: "map_of types typeId = Some t \<Longrightarrow> lookup types typeId = ok t"
  by (simp add: lookup_def)

lemma lookup_None [simp]:
  "map_of types typeId = None \<Longrightarrow> lookup types typeId = throw (LookupFailure typeId)"
  by (simp add: lookup_def)

lemma getFieldType_unnamed:
  assumes "map_of types typeId = Some (FormatType k nm)" and "truthy nm = None"
  shows "getFieldType (Suc n) typeId types =
    (if \<not> isInlineType (FormatType k nm) then ok (getTypeNameById typeId)
     else case k of
        TAny \<Rightarrow> ok ''any''
      | TJSON \<Rightarrow> ok ''JsonType''
      | TString \<Rightarrow> ok ''string''
      | TBoolean \<Rightarrow> ok ''boolean''
      | TFloat \<Rightarrow> ok ''number''
      | TID \<Rightarrow> ok ''string''
      | TInt \<Rightarrow> ok ''number''
      | TNumber \<Rightarrow> ok ''number''
      | TRecord itemTypeId \<Rightarrow>
          bind (getFieldType n typeId types) (\<lambda>item. ok (''Record<string, '' @ item @ ''>''))
      | TUnknown \<Rightarrow> ok ''unknown''
      | TLiteral v \<Rightarrow> ok (renderLiteral v)
      | TNullable itemTypeId \<Rightarrow>
          bind (getFieldType n itemTypeId types) (\<lambda>item. ok (item @ '' | null | undefined''))
      | TList itemTypeId \<Rightarrow>
          bind (getFieldType n itemTypeId types) (\<lambda>item. ok (item @ ''[]''))
      | TUnion itemTypeIds \<Rightarrow>
          bind (mapM (\<lambda>typeId. getFieldType n typeId types) itemTypeIds)
            (\<lambda>items. ok (join '' | '' items))
      | TIntersect itemTypeIds \<Rightarrow>
          bind (mapM (\<lambda>typeId. getFieldType n typeId types) itemTypeIds)
            (\<lambda>items. ok (join '' & '' items))
      | _ \<Rightarrow> throw (UnsupportedField (FormatType k nm)))"
  using assms by (simp add: getTypeName_def)

lemma getFieldType_named:
  assumes "map_of types typeId = Some fieldType" and "name fieldType = Some nm" and "nm \<noteq> []"
  shows "getFieldType (Suc n) typeId types = ok nm"
  using assms by (simp add: getTypeName_def)

lemma getFieldType_absent:
  assumes "map_of types typeId = None"
  shows "getFieldType (Suc n) typeId types = throw (LookupFailure typeId)"
  using assms by simp

declare getFieldType.simps(2) [simp del]

lemma record_never_returns:
  assumes "map_of types typeId = Some (FormatType (TRecord itemTypeId) nm)" and "truthy nm = None"
  shows "getFieldType n typeId types = None"
proof (induction n)
  case 0
  show ?case by simp
next
  case (Suc n)
  then show ?case by (simp add: getFieldType_unnamed [OF assms])
qed

lemma sequence_eq_ok:
  "sequence rs = ok ys \<longleftrightarrow> list_all2 (\<lambda>r y. r = ok y) rs ys"
proof (induction rs arbitrary: ys)
  case Nil
  show ?case by auto
next
  case (Cons r rs)
  show ?case
    by (cases ys) (auto simp: bind_eq_ok Cons.IH)
qed

lemma mapM_eq_ok:
  "mapM f xs = ok ys \<longleftrightarrow> list_all2 (\<lambda>x y. f x = ok y) xs ys"
  by (simp add: sequence_eq_ok list_all2_map1)

lemma bind_mono:
  assumes "bind m f = Some r"
    and "\<And>a. m = Some a \<Longrightarrow> m' = Some a"
    and "\<And>x. m = ok x \<Longrightarrow> f x = Some r \<Longrightarrow> f' x = Some r"
  shows "bind m' f' = Some r"
proof (cases m rule: result_cases)
  case Diverges
  with assms(1) show ?thesis by simp
next
  case (Throws e)
  with assms(1,2) show ?thesis by (simp add: throw_def)
next
  case (Returns x)
  with assms(2) have "m' = ok x" by (simp add: ok_def)
  with Returns assms(1,3) show ?thesis by simp
qed

lemma mapM_mono:
  assumes "mapM f xs = Some r"
    and "\<And>x a. x \<in> set xs \<Longrightarrow> f x = Some a \<Longrightarrow> g x = Some a"
  shows "mapM g xs = Some r"
  using assms
proof (induction xs arbitrary: r)
  case Nil
  then show ?case by simp
next
  case (Cons x xs)
  from Cons.prems(1) have "bind (f x) (\<lambda>y. bind (mapM f xs) (\<lambda>ys. ok (y # ys))) = Some r"
    by simp
  then have "bind (g x) (\<lambda>y. bind (mapM g xs) (\<lambda>ys. ok (y # ys))) = Some r"
  proof (rule bind_mono)
    fix a assume "f x = Some a"
    then show "g x = Some a" by (simp add: Cons.prems(2))
  next
    fix y
    assume "bind (mapM f xs) (\<lambda>ys. ok (y # ys)) = Some r"
    then show "bind (mapM g xs) (\<lambda>ys. ok (y # ys)) = Some r"
    proof (rule bind_mono)
      fix a assume "mapM f xs = Some a"
      then show "mapM g xs = Some a" by (rule Cons.IH) (simp add: Cons.prems(2))
    qed
  qed
  then show ?case by simp
qed

lemma getFieldType_Suc:
  "getFieldType n typeId types = Some r \<Longrightarrow> getFieldType (Suc n) typeId types = Some r"
proof (induction n arbitrary: typeId r)
  case 0
  then show ?case by simp
next
  case (Suc n)
  note step = Suc.IH
  have rec: "bind (getFieldType (Suc n) i types) f = Some r"
    if "bind (getFieldType n i types) f = Some r" for i and f :: "string \<Rightarrow> string result"
    using that by (rule bind_mono) (simp_all add: step)
  have recs: "bind (mapM (\<lambda>i. getFieldType (Suc n) i types) is) f = Some r"
    if "bind (mapM (\<lambda>i. getFieldType n i types) is) f = Some r"
    for "is" and f :: "string list \<Rightarrow> string result"
    using that by (rule bind_mono) (auto elim: mapM_mono simp: step)
  show ?case
  proof (cases "map_of types typeId")
    case None
    with Suc.prems show ?thesis by (simp add: getFieldType_absent)
  next
    case (Some fieldType)
    obtain k nm where ft: "fieldType = FormatType k nm" by (cases fieldType)
    show ?thesis
    proof (cases "truthy nm")
      case None
      note low = getFieldType_unnamed [OF Some [unfolded ft] None, of n]
      note high = getFieldType_unnamed [OF Some [unfolded ft] None, of "Suc n"]
      from Suc.prems [unfolded low] show ?thesis
        unfolding high by (cases k) (auto intro: rec recs)
    next
      case (Some s)
      then have "nm = Some s" "s \<noteq> []" by (cases nm; simp split: if_splits)+
      with \<open>map_of types typeId = Some fieldType\<close> ft Suc.prems show ?thesis
        by (simp add: getFieldType_named)
    qed
  qed
qed

lemma getFieldType_mono:
  "getFieldType n typeId types = Some r \<Longrightarrow> n \<le> m \<Longrightarrow> getFieldType m typeId types = Some r"
  by (induction m) (auto simp: le_Suc_eq getFieldType_Suc)


section \<open>The field type resolver\<close>

text \<open>
  Claim C7. An atomic primitive descriptor without a (truthy) display name resolves to the
  fixed spelling of its kind: Any to \<^verbatim>\<open>any\<close>, JSON to \<^verbatim>\<open>JsonType\<close>, String to \<^verbatim>\<open>string\<close>,
  Boolean to \<^verbatim>\<open>boolean\<close>, Float, Int and Number to \<^verbatim>\<open>number\<close>, ID to \<^verbatim>\<open>string\<close>, Unknown to
  \<^verbatim>\<open>unknown\<close>. The call returns at depth one, whatever else the registry holds.
\<close>

theorem atomic_spelling:
  assumes "(k, s) \<in> set [(TAny, ''any''), (TJSON, ''JsonType''), (TString, ''string''),
      (TBoolean, ''boolean''), (TFloat, ''number''), (TInt, ''number''), (TNumber, ''number''),
      (TID, ''string''), (TUnknown, ''unknown'')]"
    and "map_of types typeId = Some (FormatType k nm)" and "truthy nm = None"
  shows "getFieldType (Suc n) typeId types = ok s"
  using assms by (auto simp: getFieldType_unnamed)

theorem atomic_spelling_witness:
  "map (\<lambda>typeId. getFieldType (Suc 0) typeId
      [(1, FormatType TAny None), (2, FormatType TJSON None), (3, FormatType TString None),
       (4, FormatType TBoolean None), (5, FormatType TFloat None), (6, FormatType TInt None),
       (7, FormatType TNumber None), (8, FormatType TID None), (9, FormatType TUnknown (Some [])),
       (10, FormatType (TObject []) (Some ''Foo''))]) [1, 2, 3, 4, 5, 6, 7, 8, 9]
   = map ok [''any'', ''JsonType'', ''string'', ''boolean'', ''number'', ''number'', ''number'',
       ''string'', ''unknown'']"
proof -
  let ?types = "[(1::typeId, FormatType TAny None), (2, FormatType TJSON None),
       (3, FormatType TString None), (4, FormatType TBoolean None), (5, FormatType TFloat None),
       (6, FormatType TInt None), (7, FormatType TNumber None), (8, FormatType TID None),
       (9, FormatType TUnknown (Some [])), (10, FormatType (TObject []) (Some ''Foo''))]"
  have "getFieldType (Suc 0) 1 ?types = ok ''any''"
    by (rule atomic_spelling [of TAny _ _ _ None]) simp_all
  moreover have "getFieldType (Suc 0) 2 ?types = ok ''JsonType''"
    by (rule atomic_spelling [of TJSON _ _ _ None]) simp_all
  moreover have "getFieldType (Suc 0) 3 ?types = ok ''string''"
    by (rule atomic_spelling [of TString _ _ _ None]) simp_all
  moreover have "getFieldType (Suc 0) 4 ?types = ok ''boolean''"
    by (rule atomic_spelling [of TBoolean _ _ _ None]) simp_all
  moreover have "getFieldType (Suc 0) 5 ?types = ok ''number''"
    by (rule atomic_spelling [of TFloat _ _ _ None]) simp_all
  moreover have "getFieldType (Suc 0) 6 ?types = ok ''number''"
    by (rule atomic_spelling [of TInt _ _ _ None]) simp_all
  moreover have "getFieldType (Suc 0) 7 ?types = ok ''number''"
    by (rule atomic_spelling [of TNumber _ _ _ None]) simp_all
  moreover have "getFieldType (Suc 0) 8 ?types = ok ''string''"
    by (rule atomic_spelling [of TID _ _ _ None]) simp_all
  moreover have "getFieldType (Suc 0) 9 ?types = ok ''unknown''"
    by (rule atomic_spelling [of TUnknown _ _ _ "Some []"]) simp_all
  ultimately show ?thesis by simp
qed

text \<open>
  Claim C1. The claim asks that an unnamed \<^verbatim>\<open>Record{itemTypeId}\<close> resolve to
  \<^verbatim>\<open>Record<string, ...>\<close> around the resolved item type. The \<^verbatim>\<open>Record\<close> branch of
  \<^verbatim>\<open>getFieldType\<close> recurses on \<^verbatim>\<open>typeId\<close>, the record's own id, where the \<^verbatim>\<open>Nullable\<close> and
  \<^verbatim>\<open>List\<close> branches recurse on \<^verbatim>\<open>fieldType.itemTypeId\<close>: the call never returns, at any
  depth, although the item type resolves to \<^verbatim>\<open>string\<close>.
\<close>

theorem record_diverges:
  "getFieldType n 1 [(1, FormatType (TRecord 2) None), (2, FormatType TString None)] = None
   \<and> getFieldType (Suc 0) 2 [(1, FormatType (TRecord 2) None), (2, FormatType TString None)]
       = ok ''string''"
  by (simp add: record_never_returns getFieldType_unnamed)

text \<open>
  Claim C6, as amended. A descriptor with a non-empty display name resolves to that name,
  whatever its kind and whatever else the registry holds.
\<close>

theorem display_name_returned:
  assumes "map_of types typeId = Some (FormatType k (Some nm))" and "nm \<noteq> []"
  shows "getFieldType (Suc n) typeId types = ok nm"
  using assms by (simp add: getFieldType_named)

theorem display_name_returned_witness:
  "map_of [(1, FormatType TString None),
      (7, FormatType (TObject [(''a'', Field 1 (Options None None))]) (Some ''Foo''))] (7::typeId)
     = Some (FormatType (TObject [(''a'', Field 1 (Options None None))]) (Some ''Foo''))
   \<and> ''Foo'' \<noteq> []
   \<and> getFieldType (Suc 0) 7 [(1, FormatType TString None),
      (7, FormatType (TObject [(''a'', Field 1 (Options None None))]) (Some ''Foo''))] = ok ''Foo''
   \<and> getFieldType (Suc 0) 2 [(2, FormatType (TList 9) (Some ''Names''))] = ok ''Names''"
proof -
  have object: "map_of [(1, FormatType TString None),
      (7, FormatType (TObject [(''a'', Field 1 (Options None None))]) (Some ''Foo''))] (7::typeId)
     = Some (FormatType (TObject [(''a'', Field 1 (Options None None))]) (Some ''Foo''))"
    by simp
  have list: "map_of [(2::typeId, FormatType (TList 9) (Some ''Names''))] 2
     = Some (FormatType (TList 9) (Some ''Names''))"
    by simp
  from display_name_returned [OF object, of 0] display_name_returned [OF list, of 0] object
  show ?thesis by simp
qed

text \<open>
  Claim C6 as stated fails for the empty display name: \<^verbatim>\<open>if (typeName)\<close> is false for the
  empty string, so a String descriptor whose name is the empty string resolves to
  \<^verbatim>\<open>string\<close>, not to its name.
\<close>

theorem empty_display_name_counterexample:
  "name (FormatType TString (Some [])) = Some []
   \<and> getFieldType (Suc 0) 1 [(1, FormatType TString (Some []))] = ok ''string''
   \<and> getFieldType (Suc 0) 1 [(1, FormatType TString (Some []))] \<noteq> ok []"
  by (simp add: getFieldType_unnamed)

text \<open>
  Claim C8. An unnamed \<^verbatim>\<open>List{itemTypeId}\<close> resolves to what its item type resolves to, one
  level deeper, followed by \<^verbatim>\<open>[]\<close>; a failure of the item is the failure of the list.
  Hence a list of a list of String resolves to \<^verbatim>\<open>string[][]\<close>.
\<close>

theorem list_suffix:
  assumes "map_of types typeId = Some (FormatType (TList itemTypeId) nm)" and "truthy nm = None"
  shows "getFieldType (Suc n) typeId types
      = bind (getFieldType n itemTypeId types) (\<lambda>item. ok (item @ ''[]''))
    \<and> (\<forall>inner nm' nm''.
          map_of types itemTypeId = Some (FormatType (TList inner) nm') \<and> truthy nm' = None
          \<and> map_of types inner = Some (FormatType TString nm'') \<and> truthy nm'' = None
          \<longrightarrow> getFieldType (Suc (Suc (Suc n))) typeId types = ok ''string[][]'')"
  using assms by (simp add: getFieldType_unnamed)

theorem list_suffix_witness:
  "map_of [(1, FormatType TString None), (2, FormatType (TList 1) None),
      (3, FormatType (TList 2) None)] (3::typeId) = Some (FormatType (TList 2) None)
   \<and> truthy None = None
   \<and> getFieldType (Suc (Suc (Suc 0))) 3
       [(1, FormatType TString None), (2, FormatType (TList 1) None), (3, FormatType (TList 2) None)]
     = bind (getFieldType (Suc (Suc 0)) 2
         [(1, FormatType TString None), (2, FormatType (TList 1) None),
          (3, FormatType (TList 2) None)]) (\<lambda>item. ok (item @ ''[]''))
   \<and> getFieldType (Suc (Suc (Suc 0))) 3
       [(1, FormatType TString None), (2, FormatType (TList 1) None), (3, FormatType (TList 2) None)]
     = ok ''string[][]''"
proof -
  let ?types = "[(1::typeId, FormatType TString None), (2, FormatType (TList 1) None),
      (3, FormatType (TList 2) None)]"
  have outer: "map_of ?types 3 = Some (FormatType (TList 2) None)" by simp
  have none: "truthy None = None" by simp
  have inner: "map_of ?types 2 = Some (FormatType (TList 1) None) \<and> truthy None = None
    \<and> map_of ?types 1 = Some (FormatType TString None) \<and> truthy None = None"
    by simp
  from list_suffix [OF outer none, of "Suc (Suc 0)"]
  have "getFieldType (Suc (Suc (Suc 0))) 3 ?types
      = bind (getFieldType (Suc (Suc 0)) 2 ?types) (\<lambda>item. ok (item @ ''[]''))"
    by (rule conjunct1)
  moreover from list_suffix [OF outer none, of 0] inner
  have "getFieldType (Suc (Suc (Suc 0))) 3 ?types = ok ''string[][]''"
    by blast
  ultimately show ?thesis using outer none by blast
qed

text \<open>
  Claim C4. An unnamed \<^verbatim>\<open>Union{itemTypeIds}\<close> returns \<open>t\<close> exactly when every member
  resolves and \<open>t\<close> is the members' expressions, in the order of \<open>itemTypeIds\<close>, joined by
  \<^verbatim>\<open> | \<close>. The list of ids is arbitrary, so this holds for every permutation of it.
\<close>

theorem union_order:
  assumes "map_of types typeId = Some (FormatType (TUnion itemTypeIds) nm)" and "truthy nm = None"
  shows "getFieldType (Suc n) typeId types = ok t \<longleftrightarrow>
    (\<exists>items. list_all2 (\<lambda>i item. getFieldType n i types = ok item) itemTypeIds items
       \<and> t = join '' | '' items)"
  using assms by (auto simp: getFieldType_unnamed bind_eq_ok mapM_eq_ok)

theorem union_order_witness:
  "map_of [(1, FormatType TString None), (2, FormatType TBoolean None), (3, FormatType TInt None),
      (4, FormatType (TUnion [3, 1, 2]) None)] (4::typeId)
     = Some (FormatType (TUnion [3, 1, 2]) None)
   \<and> list_all2 (\<lambda>i item. getFieldType (Suc 0) i
        [(1, FormatType TString None), (2, FormatType TBoolean None), (3, FormatType TInt None),
         (4, FormatType (TUnion [3, 1, 2]) None)] = ok item)
      [3, 1, 2] [''number'', ''string'', ''boolean'']
   \<and> getFieldType (Suc (Suc 0)) 4
     [(1, FormatType TString None), (2, FormatType TBoolean None), (3, FormatType TInt None),
      (4, FormatType (TUnion [3, 1, 2]) None)] = ok ''number | string | boolean''"
proof -
  let ?types = "[(1::typeId, FormatType TString None), (2, FormatType TBoolean None),
      (3, FormatType TInt None), (4, FormatType (TUnion [3, 1, 2]) None)]"
  have union: "map_of ?types 4 = Some (FormatType (TUnion [3, 1, 2]) None)" by simp
  have none: "truthy None = None" by simp
  have members: "list_all2 (\<lambda>i item. getFieldType (Suc 0) i ?types = ok item)
      [3, 1, 2] [''number'', ''string'', ''boolean'']"
    by (simp add: getFieldType_unnamed)
  then have "\<exists>items. list_all2 (\<lambda>i item. getFieldType (Suc 0) i ?types = ok item) [3, 1, 2] items
      \<and> ''number | string | boolean'' = join '' | '' items"
    by (intro exI [of _ "[''number'', ''string'', ''boolean'']"]) simp
  with union_order [OF union none, of "Suc 0" "''number | string | boolean''"]
  have "getFieldType (Suc (Suc 0)) 4 ?types = ok ''number | string | boolean''"
    by (rule iffD2)
  with union members show ?thesis by blast
qed

section \<open>The declaration emitter\<close>

declare handleEntries.simps [simp del]

lemma isInlineType_objectFields: "isInlineType ft \<longleftrightarrow> objectFields (ftype ft) = None"
  by (cases ft rule: isInlineType.cases) simp_all

lemma getTypeNameById_nonempty [simp]: "getTypeNameById typeId \<noteq> []"
  by (simp add: getTypeNameById_def)

lemma handleType_inline:
  "objectFields (ftype formatType) = None \<Longrightarrow>
    handleType n types exportSet typeId formatType = ok (exportSet, [])"
  by (simp add: handleType_def isInlineType_objectFields)

lemma handleType_object:
  assumes "objectFields (ftype formatType) = Some fields"
  shows "handleType n types exportSet typeId formatType =
    bind (handleFields n types fields)
      (\<lambda>fileds.
         case truthy (name formatType) of
           Some typeName \<Rightarrow>
             if typeName \<in> exportSet then throw (DuplicateName typeName)
             else ok (insert typeName exportSet, sourceOfExportType typeName fileds)
         | None \<Rightarrow> ok (exportSet, sourceOfType typeId fileds))"
  using assms by (simp add: handleType_def isInlineType_objectFields getTypeName_def)

lemma bind_eq_throw:
  "bind m f = throw e \<longleftrightarrow> m = throw e \<or> (\<exists>x. m = ok x \<and> f x = throw e)"
  by (cases m rule: result_cases) auto

lemma sequence_eq_throw: "sequence rs = throw e \<Longrightarrow> throw e \<in> set rs"
  by (induction rs) (auto simp: bind_eq_throw)

lemma mapM_eq_throw:
  assumes "mapM f xs = throw e"
  obtains x where "x \<in> set xs" and "f x = throw e"
proof -
  from assms have "throw e \<in> f ` set xs" by (auto dest: sequence_eq_throw)
  then show thesis by (auto intro: that)
qed

lemma getFieldType_no_duplicate_error: "getFieldType n typeId types \<noteq> throw (DuplicateName x)"
proof (induction n arbitrary: typeId)
  case 0
  show ?case by simp
next
  case (Suc n)
  have seq: "mapM (\<lambda>i. getFieldType n i types) is \<noteq> throw (DuplicateName x)" for "is"
    using Suc.IH by (auto elim: mapM_eq_throw)
  show ?case
  proof (cases "map_of types typeId")
    case None
    then show ?thesis by (simp add: getFieldType_absent)
  next
    case (Some fieldType)
    obtain k nm where ft: "fieldType = FormatType k nm" by (cases fieldType)
    show ?thesis
    proof (cases "truthy nm")
      case None
      show ?thesis
        unfolding getFieldType_unnamed [OF Some [unfolded ft] None, of n]
        using Suc.IH seq by (cases k) (auto simp: bind_eq_throw)
    next
      case (Some s)
      then have "nm = Some s" "s \<noteq> []" by (cases nm; simp split: if_splits)+
      with \<open>map_of types typeId = Some fieldType\<close> ft show ?thesis
        by (simp add: getFieldType_named)
    qed
  qed
qed

lemma handleFields_no_duplicate_error:
  "handleFields n types fields \<noteq> throw (DuplicateName x)"
  unfolding handleFields_def
  by (auto elim!: mapM_eq_throw simp: bind_eq_throw getFieldType_no_duplicate_error)

lemma handleType_unnamed_export:
  assumes "truthy (name formatType) = None"
  shows "handleType n types exportSet typeId formatType \<noteq> throw (DuplicateName x)"
    and "handleType n types exportSet typeId formatType = ok (exportSet', d) \<Longrightarrow> exportSet' = exportSet"
proof -
  show "handleType n types exportSet typeId formatType \<noteq> throw (DuplicateName x)"
  proof (cases "objectFields (ftype formatType)")
    case None
    then show ?thesis by (simp add: handleType_inline)
  next
    case (Some fields)
    show ?thesis
      unfolding handleType_object [OF Some]
      using assms by (auto simp: bind_eq_throw handleFields_no_duplicate_error)
  qed
  show "exportSet' = exportSet" if "handleType n types exportSet typeId formatType = ok (exportSet', d)"
  proof (cases "objectFields (ftype formatType)")
    case None
    with that show ?thesis by (simp add: handleType_inline)
  next
    case (Some fields)
    from that show ?thesis
      unfolding handleType_object [OF Some]
      using assms by (auto simp: bind_eq_ok)
  qed
qed


lemma handleType_ok_export:
  assumes "handleType n types exportSet typeId formatType = ok (exportSet', d)"
  shows "case objectFields (ftype formatType) of
      None \<Rightarrow> exportSet' = exportSet
    | Some fields \<Rightarrow>
        (case truthy (name formatType) of
           None \<Rightarrow> exportSet' = exportSet
         | Some typeName \<Rightarrow> typeName \<notin> exportSet \<and> exportSet' = insert typeName exportSet)"
proof (cases "objectFields (ftype formatType)")
  case None
  with assms show ?thesis by (simp add: handleType_inline)
next
  case (Some fields)
  from assms [unfolded handleType_object [OF Some] bind_eq_ok]
  obtain fileds where
    "(case truthy (name formatType) of
        Some typeName \<Rightarrow>
          if typeName \<in> exportSet then throw (DuplicateName typeName)
          else ok (insert typeName exportSet, sourceOfExportType typeName fileds)
      | None \<Rightarrow> ok (exportSet, sourceOfType typeId fileds)) = ok (exportSet', d)"
    by blast
  then show ?thesis
    unfolding Some by (cases "truthy (name formatType)") (simp_all split: if_splits)
qed

lemma handleTypes_Cons_ok:
  "handleTypes n types exportSet ((typeId, formatType) # rest) = ok (exportSet'', ds) \<longleftrightarrow>
    (\<exists>exportSet' d ds'. handleType n types exportSet typeId formatType = ok (exportSet', d)
       \<and> handleTypes n types exportSet' rest = ok (exportSet'', ds') \<and> ds = d # ds')"
  by (auto simp: bind_eq_ok)

lemma handleTypes_ok_exports:
  assumes "handleTypes n types exportSet es = ok (exportSet', ds)"
  shows "distinct (exportNames es) \<and> set (exportNames es) \<inter> exportSet = {}
    \<and> exportSet' = exportSet \<union> set (exportNames es) \<and> length ds = length es"
  using assms
proof (induction es arbitrary: exportSet ds)
  case Nil
  then show ?case by simp
next
  case (Cons e es)
  obtain typeId formatType where e: "e = (typeId, formatType)" by (cases e)
  from Cons.prems obtain mid d ds' where
    head: "handleType n types exportSet typeId formatType = ok (mid, d)"
    and tail: "handleTypes n types mid es = ok (exportSet', ds')" and ds: "ds = d # ds'"
    unfolding e handleTypes_Cons_ok by blast
  note ih = Cons.IH [OF tail]
  from handleType_ok_export [OF head] ih ds show ?case
    unfolding e by (auto split: option.splits)
qed

lemma exportNames_append: "exportNames (xs @ ys) = exportNames xs @ exportNames ys"
  by (induction xs rule: exportNames.induct) (auto split: option.splits)

lemma exportNames_duplicate:
  assumes "i < j" and "j < length es"
    and "es ! i = (a, FormatType ka (Some nm))" and "es ! j = (b, FormatType kb (Some nm))"
    and "objectFields ka \<noteq> None" and "objectFields kb \<noteq> None" and "nm \<noteq> []"
  shows "\<not> distinct (exportNames es)"
proof -
  from assms(1,2) have split1: "es = take j es @ es ! j # drop (Suc j) es"
    by (simp add: id_take_nth_drop)
  from assms(1,2) have "take j es = take i (take j es) @ take j es ! i # drop (Suc i) (take j es)"
    by (intro id_take_nth_drop) simp
  with assms(1) have split2: "take j es = take i es @ es ! i # drop (Suc i) (take j es)"
    by (simp add: min_def)
  have "nm \<in> set (exportNames (take j es))"
    by (subst split2) (use assms in \<open>auto simp: exportNames_append\<close>)
  moreover have "exportNames (es ! j # drop (Suc j) es) = nm # exportNames (drop (Suc j) es)"
    using assms by auto
  ultimately show ?thesis
    by (subst split1) (simp add: exportNames_append)
qed



lemma handleFields_returns:
  assumes "\<forall>(key, field) \<in> set fields. \<exists>t. getFieldType n (fieldTypeId field) types = ok t"
  shows "\<exists>fs. handleFields n types fields = ok fs"
  using assms
proof (induction fields)
  case Nil
  show ?case by (simp add: handleFields_def)
next
  case (Cons f fields)
  then obtain fs where "handleFields n types fields = ok fs" by auto
  moreover obtain key field where "f = (key, field)" by (cases f)
  moreover from this Cons.prems obtain t where "getFieldType n (fieldTypeId field) types = ok t"
    by auto
  ultimately show ?case by (simp add: handleFields_def)
qed

lemma handleType_returns_or_duplicate:
  assumes "\<forall>fields. objectFields (ftype formatType) = Some fields \<longrightarrow>
      (\<forall>(key, field) \<in> set fields. \<exists>t. getFieldType n (fieldTypeId field) types = ok t)"
  shows "(\<exists>r. handleType n types exportSet typeId formatType = ok r)
    \<or> (\<exists>x. handleType n types exportSet typeId formatType = throw (DuplicateName x))"
proof (cases "objectFields (ftype formatType)")
  case None
  then show ?thesis by (simp add: handleType_inline)
next
  case (Some fields)
  with assms obtain fs where "handleFields n types fields = ok fs"
    using handleFields_returns by blast
  then show ?thesis
    unfolding handleType_object [OF Some] by (simp split: option.splits)
qed

lemma handleTypes_returns_or_duplicate:
  assumes "fieldsResolve n types es"
  shows "(\<exists>r. handleTypes n types exportSet es = ok r)
    \<or> (\<exists>x. handleTypes n types exportSet es = throw (DuplicateName x))"
  using assms
proof (induction es arbitrary: exportSet)
  case Nil
  show ?case by simp
next
  case (Cons e es)
  obtain typeId formatType where e: "e = (typeId, formatType)" by (cases e)
  from Cons.prems have rest: "fieldsResolve n types es"
    and here: "\<forall>fields. objectFields (ftype formatType) = Some fields \<longrightarrow>
      (\<forall>(key, field) \<in> set fields. \<exists>t. getFieldType n (fieldTypeId field) types = ok t)"
    by (auto simp: fieldsResolve_def e)
  from handleType_returns_or_duplicate [OF here, of exportSet typeId] show ?case
  proof
    assume "\<exists>r. handleType n types exportSet typeId formatType = ok r"
    then obtain mid d where "handleType n types exportSet typeId formatType = ok (mid, d)"
      by auto
    with Cons.IH [OF rest, of mid] show ?thesis
      unfolding e by auto
  next
    assume "\<exists>x. handleType n types exportSet typeId formatType = throw (DuplicateName x)"
    then show ?thesis unfolding e by auto
  qed
qed

lemma codegenSource_eq_ok:
  "codegenSource n formatResult = ok source \<longleftrightarrow>
    (\<exists>exportSet definitions entries.
       handleTypes n (resultTypes formatResult) {} (resultTypes formatResult)
         = ok (exportSet, definitions)
       \<and> handleEntries n (resultTypes formatResult) (resultEntries formatResult) = ok entries
       \<and> source = sourceOfModule (hasJsonType (resultTypes formatResult)) definitions entries)"
  unfolding codegenSource_def by (auto simp: bind_eq_ok)

lemma codegen_eq_ok:
  "codegen format n formatResult = ok out \<longleftrightarrow>
    (\<exists>source. codegenSource n formatResult = ok source \<and> format source = Some out)"
  unfolding codegen_def by (auto simp: bind_eq_ok split: option.splits)

lemma handleTypes_Cons:
  "handleTypes n types exportSet ((typeId, formatType) # rest) =
     bind (handleType n types exportSet typeId formatType) (\<lambda>(exportSet', d).
       bind (handleTypes n types exportSet' rest) (\<lambda>(exportSet'', ds).
         ok (exportSet'', d # ds)))"
  by simp

lemma handleFields_Nil [simp]: "handleFields n types [] = ok []"
  by (simp add: handleFields_def)

lemma handleFields_Cons:
  "handleFields n types ((key, field) # fields) =
    bind (getFieldType n (fieldTypeId field) types) (\<lambda>result.
      bind (handleFields n types fields) (\<lambda>rest.
        ok (attachComment (key @ '': '' @ result) (fieldOptions field) # rest)))"
  by (cases "getFieldType n (fieldTypeId field) types" rule: result_cases)
    (simp_all add: handleFields_def)

lemma handleEntries_Nil [simp]: "handleEntries n types [] = ok (sourceOfEntries [])"
  by (subst handleEntries.simps) simp

lemma handleTypes_append:
  "handleTypes n types exportSet (xs @ ys) =
     bind (handleTypes n types exportSet xs) (\<lambda>(exportSet', ds).
       bind (handleTypes n types exportSet' ys) (\<lambda>(exportSet'', ds').
         ok (exportSet'', ds @ ds')))"
proof (induction xs arbitrary: exportSet)
  case Nil
  show ?case
    by (cases "handleTypes n types exportSet ys" rule: result_cases) (auto simp: split_def)
next
  case (Cons e xs)
  obtain typeId formatType where e: "e = (typeId, formatType)" by (cases e)
  show ?case
  proof (cases "handleType n types exportSet typeId formatType" rule: result_cases)
    case Diverges
    then show ?thesis by (simp add: e)
  next
    case (Throws err)
    then show ?thesis by (simp add: e)
  next
    case (Returns r)
    obtain mid d where r: "r = (mid, d)" by (cases r)
    show ?thesis
    proof (cases "handleTypes n types mid xs" rule: result_cases)
      case Diverges
      then show ?thesis by (simp add: e Returns r Cons.IH)
    next
      case (Throws err)
      then show ?thesis by (simp add: e Returns r Cons.IH)
    next
      case inner: (Returns r')
      obtain mid' ds where r': "r' = (mid', ds)" by (cases r')
      show ?thesis
        by (cases "handleTypes n types mid' ys" rule: result_cases)
          (auto simp: e Returns r Cons.IH inner r' split_def)
    qed
  qed
qed

lemma handleTypes_prefix_throw:
  assumes "handleTypes n types exportSet (take k es) = throw err"
  shows "handleTypes n types exportSet es = throw err"
proof -
  have "handleTypes n types exportSet (take k es @ drop k es) = throw err"
    unfolding handleTypes_append assms by simp
  then show ?thesis by simp
qed

lemma handleType_throw_duplicate:
  assumes "handleType n types exportSet typeId formatType = throw (DuplicateName x)"
  shows "objectFields (ftype formatType) \<noteq> None \<and> truthy (name formatType) = Some x
    \<and> x \<in> exportSet"
proof (cases "objectFields (ftype formatType)")
  case None
  with assms show ?thesis by (simp add: handleType_inline)
next
  case (Some fields)
  from assms [unfolded handleType_object [OF Some] bind_eq_throw]
    handleFields_no_duplicate_error [of n types fields x]
  obtain fileds where
    "(case truthy (name formatType) of
        Some typeName \<Rightarrow>
          if typeName \<in> exportSet then throw (DuplicateName typeName)
          else ok (insert typeName exportSet, sourceOfExportType typeName fileds)
      | None \<Rightarrow> ok (exportSet, sourceOfType typeId fileds)) = throw (DuplicateName x)"
    by blast
  then show ?thesis
    unfolding Some by (cases "truthy (name formatType)") (simp_all split: if_splits)
qed

lemma exportNames_member:
  assumes "x \<in> set (exportNames es)"
  shows "\<exists>p c formatType. p < length es \<and> es ! p = (c, formatType)
    \<and> objectFields (ftype formatType) \<noteq> None \<and> truthy (name formatType) = Some x"
  using assms
proof (induction es)
  case Nil
  then show ?case by simp
next
  case (Cons e es)
  obtain c formatType where e: "e = (c, formatType)" by (cases e)
  show ?case
  proof (cases "objectFields (ftype formatType) \<noteq> None \<and> truthy (name formatType) = Some x")
    case True
    then have "0 < length (e # es) \<and> (e # es) ! 0 = (c, formatType)
      \<and> objectFields (ftype formatType) \<noteq> None \<and> truthy (name formatType) = Some x"
      by (simp add: e)
    then show ?thesis by blast
  next
    case False
    with Cons.prems have "x \<in> set (exportNames es)"
      by (auto simp: e split: option.splits)
    from Cons.IH [OF this] obtain p c' formatType' where
      "p < length es" "es ! p = (c', formatType')"
      "objectFields (ftype formatType') \<noteq> None" "truthy (name formatType') = Some x"
      by blast
    then have "Suc p < length (e # es) \<and> (e # es) ! Suc p = (c', formatType')
      \<and> objectFields (ftype formatType') \<noteq> None \<and> truthy (name formatType') = Some x"
      by simp
    then show ?thesis by blast
  qed
qed

lemma handleTypes_throw_duplicate:
  assumes "handleTypes n types exportSet es = throw (DuplicateName x)"
  shows "\<exists>q c formatType. q < length es \<and> es ! q = (c, formatType)
    \<and> objectFields (ftype formatType) \<noteq> None \<and> truthy (name formatType) = Some x
    \<and> (x \<in> exportSet \<or> x \<in> set (exportNames (take q es)))"
  using assms
proof (induction es arbitrary: exportSet)
  case Nil
  then show ?case by simp
next
  case (Cons e es)
  obtain typeId formatType where e: "e = (typeId, formatType)" by (cases e)
  show ?case
  proof (cases "handleType n types exportSet typeId formatType" rule: result_cases)
    case Diverges
    with Cons.prems show ?thesis by (simp add: e)
  next
    case (Throws err)
    with Cons.prems have "handleType n types exportSet typeId formatType = throw (DuplicateName x)"
      by (simp add: e)
    from handleType_throw_duplicate [OF this]
    have "0 < length (e # es) \<and> (e # es) ! 0 = (typeId, formatType)
      \<and> objectFields (ftype formatType) \<noteq> None \<and> truthy (name formatType) = Some x
      \<and> (x \<in> exportSet \<or> x \<in> set (exportNames (take 0 (e # es))))"
      by (simp add: e)
    then show ?thesis by blast
  next
    case (Returns r)
    obtain mid d where r: "r = (mid, d)" by (cases r)
    from Cons.prems have "handleTypes n types mid es = throw (DuplicateName x)"
      by (cases "handleTypes n types mid es" rule: result_cases)
        (auto simp: e Returns r split_def)
    from Cons.IH [OF this] obtain q c formatType' where
      q: "q < length es" "es ! q = (c, formatType')"
      "objectFields (ftype formatType') \<noteq> None" "truthy (name formatType') = Some x"
      and seen: "x \<in> mid \<or> x \<in> set (exportNames (take q es))"
      by blast
    from handleType_ok_export [OF Returns [unfolded r]] seen
    have "x \<in> exportSet \<or> x \<in> set (exportNames ((typeId, formatType) # take q es))"
      by (auto split: option.splits)
    with q have "Suc q < length (e # es) \<and> (e # es) ! Suc q = (c, formatType')
      \<and> objectFields (ftype formatType') \<noteq> None \<and> truthy (name formatType') = Some x
      \<and> (x \<in> exportSet \<or> x \<in> set (exportNames (take (Suc q) (e # es))))"
      by (simp add: e)
    then show ?thesis by blast
  qed
qed


lemma codegen_handleTypes_throw:
  assumes "handleTypes n types {} types = throw err"
  shows "codegen format n (FormatResult types entries) = throw err"
  using assms by (simp add: codegen_def codegenSource_def)

lemma codegen_handleTypes_diverges:
  assumes "handleTypes n types {} types = None"
  shows "codegen format n (FormatResult types entries) = None"
  using assms by (simp add: codegen_def codegenSource_def)

lemma handleTypes_at:
  assumes "k < length es" and "handleTypes n types exportSet (take k es) = ok (mid, ds)"
    and "es ! k = (c, formatType)" and "objectFields (ftype formatType) = Some fields"
  shows "handleFields n types fields = throw err \<Longrightarrow> handleTypes n types exportSet es = throw err"
    and "handleFields n types fields = None \<Longrightarrow> handleTypes n types exportSet es = None"
proof -
  from id_take_nth_drop [OF assms(1)] have es: "es = take k es @ (c, formatType) # drop (Suc k) es"
    unfolding assms(3) .
  have unfold: "handleTypes n types exportSet es =
      bind (handleType n types mid c formatType) (\<lambda>(exportSet', d).
        bind (handleTypes n types exportSet' (drop (Suc k) es)) (\<lambda>(exportSet'', ds').
          ok (exportSet'', ds @ d # ds')))"
  proof (cases "handleType n types mid c formatType" rule: result_cases)
    case Diverges
    then show ?thesis by (subst es) (simp add: handleTypes_append assms(2))
  next
    case (Throws e)
    then show ?thesis by (subst es) (simp add: handleTypes_append assms(2))
  next
    case (Returns r)
    obtain mid' d where r: "r = (mid', d)" by (cases r)
    show ?thesis
      by (subst es, cases "handleTypes n types mid' (drop (Suc k) es)" rule: result_cases)
        (auto simp: handleTypes_append assms(2) Returns r split_def)
  qed
  show "handleTypes n types exportSet es = throw err" if "handleFields n types fields = throw err"
    unfolding unfold handleType_object [OF assms(4)] that by simp
  show "handleTypes n types exportSet es = None" if "handleFields n types fields = None"
    unfolding unfold handleType_object [OF assms(4)] that by simp
qed

lemma nullable_cycle_never_returns:
  assumes "map_of types typeId = Some (FormatType (TNullable typeId) nm)" and "truthy nm = None"
  shows "getFieldType n typeId types = None"
proof (induction n)
  case 0
  show ?case by simp
next
  case (Suc n)
  then show ?case by (simp add: getFieldType_unnamed [OF assms])
qed

text \<open>
  Claim C2, as amended. When two Object or Struct descriptors of the registry carry the same
  non-empty display name, generation never returns an output, at any depth and with any
  formatter. When every field of the entries up to and including the second of the two
  resolves, the failure is the duplicate-name error, for a name that two of these entries
  carry; the entries after the second are never looked at. When the fields of an entry up
  to the second fail to resolve, or their resolution does not return, while the entries
  before it are emitted, that failure is raised instead, since \<^verbatim>\<open>handleType\<close> renders the
  fields of a descriptor before it checks the name.
\<close>

theorem duplicate_display_name:
  assumes "i < j" and "j < length types"
    and "types ! i = (a, FormatType ka (Some nm))" and "types ! j = (b, FormatType kb (Some nm))"
    and "objectFields ka \<noteq> None" and "objectFields kb \<noteq> None" and "nm \<noteq> []"
  shows "(\<forall>out. codegen format n (FormatResult types entries) \<noteq> ok out)
    \<and> (fieldsResolve n types (take (Suc j) types) \<longrightarrow>
        (\<exists>p q x. p < q \<and> q \<le> j
           \<and> (\<exists>c formatType. types ! p = (c, formatType)
                 \<and> objectFields (ftype formatType) \<noteq> None \<and> truthy (name formatType) = Some x)
           \<and> (\<exists>c formatType. types ! q = (c, formatType)
                 \<and> objectFields (ftype formatType) \<noteq> None \<and> truthy (name formatType) = Some x)
           \<and> codegen format n (FormatResult types entries) = throw (DuplicateName x)))
    \<and> (\<forall>k exportSet ds c formatType fields.
          k \<le> j \<and> handleTypes n types {} (take k types) = ok (exportSet, ds)
          \<and> types ! k = (c, formatType) \<and> objectFields (ftype formatType) = Some fields
          \<longrightarrow> (\<forall>err. handleFields n types fields = throw err
                  \<longrightarrow> codegen format n (FormatResult types entries) = throw err)
            \<and> (handleFields n types fields = None
                  \<longrightarrow> codegen format n (FormatResult types entries) = None))"
proof (intro conjI allI impI)
  from assms have dup: "\<not> distinct (exportNames types)" by (rule exportNames_duplicate)
  then have no: "handleTypes n types {} types \<noteq> ok r" for r
    using handleTypes_ok_exports [of n types "{}" types "fst r" "snd r"] by auto
  then show "codegen format n (FormatResult types entries) \<noteq> ok out" for out
    by (auto simp: codegen_eq_ok codegenSource_eq_ok)
next
  let ?prefix = "take (Suc j) types"
  assume resolve: "fieldsResolve n types ?prefix"
  from assms have "\<not> distinct (exportNames ?prefix)"
    by (intro exportNames_duplicate [of i j ?prefix a ka nm b kb]) simp_all
  then have "handleTypes n types {} ?prefix \<noteq> ok r" for r
    using handleTypes_ok_exports [of n types "{}" ?prefix "fst r" "snd r"] by auto
  with handleTypes_returns_or_duplicate [OF resolve, of "{}"]
  obtain x where thrown: "handleTypes n types {} ?prefix = throw (DuplicateName x)" by auto
  from handleTypes_throw_duplicate [OF this] obtain q c formatType where
    q: "q < length ?prefix" "?prefix ! q = (c, formatType)"
      "objectFields (ftype formatType) \<noteq> None" "truthy (name formatType) = Some x"
    and "x \<in> set (exportNames (take q ?prefix))"
    by auto
  from exportNames_member [OF this(5)] obtain p c' formatType' where
    p: "p < length (take q ?prefix)" "take q ?prefix ! p = (c', formatType')"
      "objectFields (ftype formatType') \<noteq> None" "truthy (name formatType') = Some x"
    by blast
  from q(1) assms(2) have "q \<le> j" by simp
  moreover from p(1) have "p < q" by simp
  moreover from q(1,2) have "types ! q = (c, formatType)" by simp
  moreover from p(1,2) q(1) have "types ! p = (c', formatType')" by simp
  moreover have "codegen format n (FormatResult types entries) = throw (DuplicateName x)"
    by (rule codegen_handleTypes_throw, rule handleTypes_prefix_throw [OF thrown])
  ultimately show "\<exists>p q x. p < q \<and> q \<le> j
           \<and> (\<exists>c formatType. types ! p = (c, formatType)
                 \<and> objectFields (ftype formatType) \<noteq> None \<and> truthy (name formatType) = Some x)
           \<and> (\<exists>c formatType. types ! q = (c, formatType)
                 \<and> objectFields (ftype formatType) \<noteq> None \<and> truthy (name formatType) = Some x)
           \<and> codegen format n (FormatResult types entries) = throw (DuplicateName x)"
    using q(3,4) p(3,4) by blast
next
  fix k exportSet ds c formatType fields err
  assume *: "k \<le> j \<and> handleTypes n types {} (take k types) = ok (exportSet, ds)
          \<and> types ! k = (c, formatType) \<and> objectFields (ftype formatType) = Some fields"
    and "handleFields n types fields = throw err"
  with assms(2) have "handleTypes n types {} types = throw err"
    by (intro handleTypes_at(1) [of k types n types "{}" exportSet ds c formatType fields err])
      simp_all
  then show "codegen format n (FormatResult types entries) = throw err"
    by (rule codegen_handleTypes_throw)
next
  fix k exportSet ds c formatType fields
  assume *: "k \<le> j \<and> handleTypes n types {} (take k types) = ok (exportSet, ds)
          \<and> types ! k = (c, formatType) \<and> objectFields (ftype formatType) = Some fields"
    and "handleFields n types fields = None"
  with assms(2) have "handleTypes n types {} types = None"
    by (intro handleTypes_at(2) [of k types n types "{}" exportSet ds c formatType fields]) simp_all
  then show "codegen format n (FormatResult types entries) = None"
    by (rule codegen_handleTypes_diverges)
qed

theorem duplicate_display_name_witness:
  "fieldsResolve (Suc 0)
      [(2, FormatType (TObject []) (Some ''Foo'')), (3, FormatType (TStruct []) (Some ''Foo'')),
       (4, FormatType (TObject [(''a'', Field 99 (Options None None))]) (Some ''X''))]
      (take (Suc (Suc 0))
        [(2, FormatType (TObject []) (Some ''Foo'')), (3, FormatType (TStruct []) (Some ''Foo'')),
         (4, FormatType (TObject [(''a'', Field 99 (Options None None))]) (Some ''X''))])
   \<and> (\<forall>out. codegen Some (Suc 0) (FormatResult
        [(2, FormatType (TObject []) (Some ''Foo'')), (3, FormatType (TStruct []) (Some ''Foo'')),
         (4, FormatType (TObject [(''a'', Field 99 (Options None None))]) (Some ''X''))] [])
        \<noteq> ok out)
   \<and> codegen Some (Suc 0) (FormatResult
        [(2, FormatType (TObject []) (Some ''Foo'')), (3, FormatType (TStruct []) (Some ''Foo'')),
         (4, FormatType (TObject [(''a'', Field 99 (Options None None))]) (Some ''X''))] [])
      = throw (DuplicateName ''Foo'')
   \<and> handleTypes (Suc 0)
        [(2, FormatType (TObject []) (Some ''Foo'')),
         (3, FormatType (TObject [(''a'', Field 99 (Options None None))]) (Some ''Foo''))] {}
        (take (Suc 0)
          [(2, FormatType (TObject []) (Some ''Foo'')),
           (3, FormatType (TObject [(''a'', Field 99 (Options None None))]) (Some ''Foo''))])
      = ok ({''Foo''}, [sourceOfExportType ''Foo'' []])
   \<and> codegen Some (Suc 0) (FormatResult
        [(2, FormatType (TObject []) (Some ''Foo'')),
         (3, FormatType (TObject [(''a'', Field 99 (Options None None))]) (Some ''Foo''))] [])
      = throw (LookupFailure 99)"
proof -
  let ?A = "[(2::typeId, FormatType (TObject []) (Some ''Foo'')),
       (3, FormatType (TStruct []) (Some ''Foo'')),
       (4, FormatType (TObject [(''a'', Field 99 (Options None None))]) (Some ''X''))]"
  let ?B = "[(2::typeId, FormatType (TObject []) (Some ''Foo'')),
       (3, FormatType (TObject [(''a'', Field 99 (Options None None))]) (Some ''Foo''))]"
  have resolve: "fieldsResolve (Suc 0) ?A (take (Suc (Suc 0)) ?A)"
    by (simp add: fieldsResolve_def)
  note instA = duplicate_display_name [of 0 "Suc 0" ?A 2 "TObject []" "''Foo''" 3 "TStruct []"
      Some "Suc 0" "[]"]
  from instA have never: "\<forall>out. codegen Some (Suc 0) (FormatResult ?A []) \<noteq> ok out"
    by simp
  from instA resolve obtain p q x where
    "p < q" "q \<le> Suc 0"
    "\<exists>c formatType. ?A ! q = (c, formatType)
       \<and> objectFields (ftype formatType) \<noteq> None \<and> truthy (name formatType) = Some x"
    and thrown: "codegen Some (Suc 0) (FormatResult ?A []) = throw (DuplicateName x)"
    by auto
  then have "q = Suc 0" by simp
  with \<open>\<exists>c formatType. ?A ! q = (c, formatType)
       \<and> objectFields (ftype formatType) \<noteq> None \<and> truthy (name formatType) = Some x\<close>
  have "x = ''Foo''" by simp
  with thrown have foo: "codegen Some (Suc 0) (FormatResult ?A []) = throw (DuplicateName ''Foo'')"
    by simp
  have before: "handleTypes (Suc 0) ?B {} (take (Suc 0) ?B)
      = ok ({''Foo''}, [sourceOfExportType ''Foo'' []])"
    by (simp add: handleType_object)
  have fields: "handleFields (Suc 0) ?B [(''a'', Field 99 (Options None None))]
      = throw (LookupFailure 99)"
    by (simp add: handleFields_Cons getFieldType_absent)
  note instB = duplicate_display_name [of 0 "Suc 0" ?B 2 "TObject []" "''Foo''" 3
      "TObject [(''a'', Field 99 (Options None None))]" Some "Suc 0" "[]"]
  from instB have "\<forall>k exportSet ds c formatType fields.
          k \<le> Suc 0 \<and> handleTypes (Suc 0) ?B {} (take k ?B) = ok (exportSet, ds)
          \<and> ?B ! k = (c, formatType) \<and> objectFields (ftype formatType) = Some fields
          \<longrightarrow> (\<forall>err. handleFields (Suc 0) ?B fields = throw err
                  \<longrightarrow> codegen Some (Suc 0) (FormatResult ?B []) = throw err)
            \<and> (handleFields (Suc 0) ?B fields = None
                  \<longrightarrow> codegen Some (Suc 0) (FormatResult ?B []) = None)"
    by simp
  from this [rule_format, of "Suc 0" "{''Foo''}" "[sourceOfExportType ''Foo'' []]" 3
      "FormatType (TObject [(''a'', Field 99 (Options None None))]) (Some ''Foo'')"
      "[(''a'', Field 99 (Options None None))]"] before fields
  have "codegen Some (Suc 0) (FormatResult ?B []) = throw (LookupFailure 99)"
    by simp
  with resolve never foo before show ?thesis by blast
qed

text \<open>
  Claim C2 as stated fails. Two Objects named \<^verbatim>\<open>Foo\<close>, the first with a field of the absent
  type id 99: generation fails with the lookup failure, not with the duplicate-name error.
  Two Objects whose display name is the empty string: \<^verbatim>\<open>if (typeName)\<close> is false, both are
  declared under their id-derived names and generation returns. Two Objects named \<^verbatim>\<open>Foo\<close>,
  the first with a field whose type is a \<^verbatim>\<open>Nullable\<close> of itself, every id bound: the
  resolution of the field recurses without end, and generation returns at no depth, with
  the duplicate-name error or otherwise.
\<close>

theorem duplicate_display_name_counterexample:
  "codegen Some (Suc 0) (FormatResult
      [(1, FormatType (TObject [(''a'', Field 99 (Options None None))]) (Some ''Foo'')),
       (2, FormatType (TObject []) (Some ''Foo''))] []) = throw (LookupFailure 99)
   \<and> codegen Some (Suc 0) (FormatResult
      [(1, FormatType (TObject []) (Some [])), (2, FormatType (TObject []) (Some []))] [])
     = ok (sourceOfModule False [sourceOfType 1 [], sourceOfType 2 []] (sourceOfEntries []))
   \<and> (\<forall>n. codegen Some n (FormatResult
      [(2, FormatType (TObject [(''a'', Field 4 (Options None None))]) (Some ''Foo'')),
       (3, FormatType (TObject []) (Some ''Foo'')),
       (4, FormatType (TNullable 4) None)] []) = None)"
proof -
  let ?types = "[(2::typeId, FormatType (TObject [(''a'', Field 4 (Options None None))])
        (Some ''Foo'')),
       (3, FormatType (TObject []) (Some ''Foo'')),
       (4, FormatType (TNullable 4) None)]"
  have "getFieldType n 4 ?types = None" for n
    by (rule nullable_cycle_never_returns [of _ _ None]) simp_all
  then have "handleFields n ?types [(''a'', Field 4 (Options None None))] = None" for n
    by (simp add: handleFields_Cons)
  then have "handleTypes n ?types {} ?types = None" for n
    by (simp add: handleType_object)
  then have "codegen Some n (FormatResult ?types []) = None" for n
    by (rule codegen_handleTypes_diverges)
  then show ?thesis
    by (simp add: codegen_def codegenSource_def handleType_object handleFields_Cons
        getFieldType_absent hasJsonType_def)
qed

text \<open>
  Claim C10. The duplicate-name check covers display names only. A descriptor without a
  truthy display name never raises the duplicate-name error and leaves the export set as it
  was, so its id-derived name is never recorded. A registry of an Object named
  \<^verbatim>\<open>Type\<close>\<open>K\<close> and an unnamed Object at id \<open>K\<close>, whose fields resolve, generates two
  declarations of that one name, \<^verbatim>\<open>export type TypeK = {...}\<close> and \<^verbatim>\<open>type TypeK = {...}\<close>.
\<close>

theorem synthetic_name_unchecked:
  "(truthy (name formatType) = None \<longrightarrow>
      (\<forall>x. handleType n types exportSet typeId formatType \<noteq> throw (DuplicateName x))
      \<and> (\<forall>exportSet' d. handleType n types exportSet typeId formatType = ok (exportSet', d)
            \<longrightarrow> exportSet' = exportSet))
   \<and> (j \<noteq> K
        \<and> handleFields n
            [(j, FormatType (TObject fields) (Some (getTypeNameById K))),
             (K, FormatType (TObject fields') None)] fields = ok fileds
        \<and> handleFields n
            [(j, FormatType (TObject fields) (Some (getTypeNameById K))),
             (K, FormatType (TObject fields') None)] fields' = ok fileds'
      \<longrightarrow> codegenSource n (FormatResult
          [(j, FormatType (TObject fields) (Some (getTypeNameById K))),
           (K, FormatType (TObject fields') None)] [])
        = ok (sourceOfModule False
               [sourceOfExportType (getTypeNameById K) fileds, sourceOfType K fileds']
               (sourceOfEntries [])))"
proof (intro conjI impI)
  assume "truthy (name formatType) = None"
  then show "\<forall>x. handleType n types exportSet typeId formatType \<noteq> throw (DuplicateName x)"
    and "\<forall>exportSet' d. handleType n types exportSet typeId formatType = ok (exportSet', d)
            \<longrightarrow> exportSet' = exportSet"
    using handleType_unnamed_export [of formatType n types exportSet typeId] by blast+
next
  let ?types = "[(j, FormatType (TObject fields) (Some (getTypeNameById K))),
           (K, FormatType (TObject fields') None)]"
  assume "j \<noteq> K \<and> handleFields n ?types fields = ok fileds
    \<and> handleFields n ?types fields' = ok fileds'"
  then show "codegenSource n (FormatResult ?types [])
        = ok (sourceOfModule False
               [sourceOfExportType (getTypeNameById K) fileds, sourceOfType K fileds']
               (sourceOfEntries []))"
    by (simp add: codegenSource_def handleType_object hasJsonType_def)
qed

theorem synthetic_name_unchecked_witness:
  "handleFields (Suc 0)
      [(3, FormatType (TObject [(''peer'', Field 7 (Options None None))]) (Some ''Type7'')),
       (7, FormatType (TObject [(''owner'', Field 3 (Options None None))]) None)]
      [(''peer'', Field 7 (Options None None))] = ok [''peer: Type7'']
   \<and> handleFields (Suc 0)
      [(3, FormatType (TObject [(''peer'', Field 7 (Options None None))]) (Some ''Type7'')),
       (7, FormatType (TObject [(''owner'', Field 3 (Options None None))]) None)]
      [(''owner'', Field 3 (Options None None))] = ok [''owner: Type7'']
   \<and> codegenSource (Suc 0) (FormatResult
      [(3, FormatType (TObject [(''peer'', Field 7 (Options None None))]) (Some ''Type7'')),
       (7, FormatType (TObject [(''owner'', Field 3 (Options None None))]) None)] [])
     = ok (sourceOfModule False
        [sourceOfExportType ''Type7'' [''peer: Type7''], sourceOfType 7 [''owner: Type7'']]
        (sourceOfEntries []))
   \<and> sourceOfExportType ''Type7'' [''peer: Type7'']
     = ''\<newline>        export type Type7 = {\<newline>          peer: Type7\<newline>        }\<newline>        ''
   \<and> sourceOfType 7 [''owner: Type7'']
     = ''type Type7 = {\<newline>        owner: Type7\<newline>      }\<newline>      ''
   \<and> handleType (Suc 0) [] {''Type7''} 7 (FormatType (TObject []) None)
     = ok ({''Type7''}, sourceOfType 7 [])"
proof -
  let ?types = "[(3::typeId, FormatType (TObject [(''peer'', Field 7 (Options None None))])
        (Some ''Type7'')),
       (7, FormatType (TObject [(''owner'', Field 3 (Options None None))]) None)]"
  have name7: "getTypeNameById 7 = ''Type7''" by code_simp
  have peer: "handleFields (Suc 0) ?types [(''peer'', Field 7 (Options None None))]
      = ok [''peer: Type7'']"
    by (simp add: handleFields_Cons getFieldType_unnamed name7 attachComment_def)
  have owner: "handleFields (Suc 0) ?types [(''owner'', Field 3 (Options None None))]
      = ok [''owner: Type7'']"
    by (simp add: handleFields_Cons getFieldType_named attachComment_def)
  note inst = synthetic_name_unchecked [of "FormatType (TObject []) None" "Suc 0" "[]"
      "{''Type7''}" 7 3 7 "[(''peer'', Field 7 (Options None None))]"
      "[(''owner'', Field 3 (Options None None))]" "[''peer: Type7'']" "[''owner: Type7'']",
      unfolded name7]
  from inst peer owner have run: "codegenSource (Suc 0) (FormatResult ?types [])
     = ok (sourceOfModule False
        [sourceOfExportType ''Type7'' [''peer: Type7''], sourceOfType 7 [''owner: Type7'']]
        (sourceOfEntries []))"
    by simp
  from inst have "\<forall>exportSet' d. handleType (Suc 0) [] {''Type7''} 7 (FormatType (TObject []) None)
      = ok (exportSet', d) \<longrightarrow> exportSet' = {''Type7''}"
    by simp
  moreover have emitted: "handleType (Suc 0) [] {''Type7''} 7 (FormatType (TObject []) None)
     = ok ({''Type7''}, sourceOfType 7 [])"
    by (simp add: handleType_object)
  moreover have "sourceOfExportType ''Type7'' [''peer: Type7'']
     = ''\<newline>        export type Type7 = {\<newline>          peer: Type7\<newline>        }\<newline>        ''"
    by (simp add: sourceOfExportType_def)
  moreover have "sourceOfType 7 [''owner: Type7'']
     = ''type Type7 = {\<newline>        owner: Type7\<newline>      }\<newline>      ''"
    by (simp add: sourceOfType_def name7)
  ultimately show ?thesis using peer owner run by blast
qed

section \<open>References and the endpoint tree\<close>







lemma handleApi_eq_ok:
  "handleApi n types inputTypeId outputTypeId = ok result \<longleftrightarrow>
    (\<exists>inputType outputType. getFieldType n inputTypeId types = ok inputType
       \<and> getFieldType n outputTypeId types = ok outputType
       \<and> result = sourceOfApi inputType outputType)"
  unfolding handleApi_def by (auto simp: bind_eq_ok)

lemma handleEntries_eq_ok:
  "handleEntries n types entries = ok s \<longleftrightarrow>
    (\<exists>fields.
       list_all2 (\<lambda>(key, field) f.
           case field of
             Api inputTypeId outputTypeId opts \<Rightarrow>
               \<exists>result. handleApi n types inputTypeId outputTypeId = ok result
                 \<and> f = attachComment (key @ '': '' @ result) opts
           | Entries sub \<Rightarrow>
               \<exists>result. handleEntries n types sub = ok result \<and> f = key @ '': '' @ result)
         entries fields
       \<and> s = sourceOfEntries fields)"
proof -
  have "(case x of (key, field) \<Rightarrow>
           case field of
             Api inputTypeId outputTypeId opts \<Rightarrow>
               bind (handleApi n types inputTypeId outputTypeId)
                 (\<lambda>result. ok (attachComment (key @ '': '' @ result) opts))
           | Entries sub \<Rightarrow>
               bind (handleEntries n types sub) (\<lambda>result. ok (key @ '': '' @ result))) = ok f
      \<longleftrightarrow> (case x of (key, field) \<Rightarrow> \<lambda>f.
           case field of
             Api inputTypeId outputTypeId opts \<Rightarrow>
               \<exists>result. handleApi n types inputTypeId outputTypeId = ok result
                 \<and> f = attachComment (key @ '': '' @ result) opts
           | Entries sub \<Rightarrow>
               \<exists>result. handleEntries n types sub = ok result \<and> f = key @ '': '' @ result) f"
    for x f
    by (cases x; cases "snd x") (auto simp: bind_eq_ok)
  then have "handleEntries n types entries = ok s \<longleftrightarrow>
    (\<exists>fields.
       list_all2 (\<lambda>(key, field) f.
           case field of
             Api inputTypeId outputTypeId opts \<Rightarrow>
               \<exists>result. handleApi n types inputTypeId outputTypeId = ok result
                 \<and> f = attachComment (key @ '': '' @ result) opts
           | Entries sub \<Rightarrow>
               \<exists>result. handleEntries n types sub = ok result \<and> f = key @ '': '' @ result)
         entries fields
       \<and> sourceOfEntries fields = s)"
    by (subst handleEntries.simps) (simp only: bind_eq_ok mapM_eq_ok ok_inject)
  then show ?thesis by auto
qed




lemma attachComment_cases:
  "attachComment result opts =
    (case (truthy (description opts), truthy (deprecated opts)) of
       (None, None) \<Rightarrow> result
     | (Some d, None) \<Rightarrow> ''/**\<newline>* @remarks '' @ d @ ''\<newline>*/\<newline>'' @ result
     | (None, Some p) \<Rightarrow> ''/**\<newline>* @depcreated '' @ p @ ''\<newline>*/\<newline>'' @ result
     | (Some d, Some p) \<Rightarrow>
         ''/**\<newline>* @remarks '' @ d @ ''\<newline>* @depcreated '' @ p @ ''\<newline>*/\<newline>'' @ result)"
  by (simp add: attachComment_def split: option.splits)

lemma handleEntries_single_api:
  "handleEntries n types [(key, Api inputTypeId outputTypeId opts)] =
     bind (handleApi n types inputTypeId outputTypeId)
       (\<lambda>result. ok (sourceOfEntries [attachComment (key @ '': '' @ result) opts]))"
  by (subst handleEntries.simps)
    (cases "handleApi n types inputTypeId outputTypeId" rule: result_cases, simp_all)




text \<open>
  Claim C9. An endpoint whose input and output types resolve renders as
  \<^verbatim>\<open>(input: I) => Promise<O>\<close>. In every namespace that \<^verbatim>\<open>handleEntries\<close> renders, the field of
  an endpoint under key \<open>key\<close> is \<^verbatim>\<open>key: (input: I) => Promise<O>\<close> with \<^verbatim>\<open>attachComment\<close>
  applied to the endpoint's own description and deprecation note: no comment when neither
  is truthy, else a comment block with the remarks line first and the deprecation line
  second (the tag of the latter is spelled \<^verbatim>\<open>@depcreated\<close> in the source).
\<close>

theorem endpoint_signature:
  "(getFieldType n inputTypeId types = ok inputType
      \<and> getFieldType n outputTypeId types = ok outputType
      \<longrightarrow> handleApi n types inputTypeId outputTypeId
          = ok (''(input: '' @ inputType @ '') => Promise<'' @ outputType @ ''>''))
   \<and> (handleEntries n types entries = ok s \<and> k < length entries
        \<and> entries ! k = (key, Api inputTypeId outputTypeId opts)
      \<longrightarrow> (\<exists>inputType outputType fields.
            getFieldType n inputTypeId types = ok inputType
            \<and> getFieldType n outputTypeId types = ok outputType
            \<and> length fields = length entries
            \<and> fields ! k = attachComment
                (key @ '': '' @ ''(input: '' @ inputType @ '') => Promise<'' @ outputType @ ''>'')
                opts
            \<and> s = sourceOfEntries fields))
   \<and> attachComment result opts =
        (case (truthy (description opts), truthy (deprecated opts)) of
           (None, None) \<Rightarrow> result
         | (Some d, None) \<Rightarrow> ''/**\<newline>* @remarks '' @ d @ ''\<newline>*/\<newline>'' @ result
         | (None, Some p) \<Rightarrow> ''/**\<newline>* @depcreated '' @ p @ ''\<newline>*/\<newline>'' @ result
         | (Some d, Some p) \<Rightarrow>
             ''/**\<newline>* @remarks '' @ d @ ''\<newline>* @depcreated '' @ p @ ''\<newline>*/\<newline>''
             @ result)"
proof (intro conjI impI)
  assume "getFieldType n inputTypeId types = ok inputType
      \<and> getFieldType n outputTypeId types = ok outputType"
  then show "handleApi n types inputTypeId outputTypeId
          = ok (''(input: '' @ inputType @ '') => Promise<'' @ outputType @ ''>'')"
    by (simp add: handleApi_def sourceOfApi_def)
next
  assume *: "handleEntries n types entries = ok s \<and> k < length entries
        \<and> entries ! k = (key, Api inputTypeId outputTypeId opts)"
  from handleEntries_eq_ok [THEN iffD1] * obtain fields where
    all: "list_all2 (\<lambda>(key, field) f.
           case field of
             Api inputTypeId outputTypeId opts \<Rightarrow>
               \<exists>result. handleApi n types inputTypeId outputTypeId = ok result
                 \<and> f = attachComment (key @ '': '' @ result) opts
           | Entries sub \<Rightarrow>
               \<exists>result. handleEntries n types sub = ok result \<and> f = key @ '': '' @ result)
         entries fields"
    and s: "s = sourceOfEntries fields"
    by blast
  from all have len: "length fields = length entries" by (simp add: list_all2_lengthD)
  from * have "k < length entries" and "entries ! k = (key, Api inputTypeId outputTypeId opts)"
    by simp_all
  from list_all2_nthD [OF all this(1)] this(2) obtain sig where
    "handleApi n types inputTypeId outputTypeId = ok sig"
    and "fields ! k = attachComment (key @ '': '' @ sig) opts"
    by auto
  then obtain inputType outputType where
    "getFieldType n inputTypeId types = ok inputType"
    "getFieldType n outputTypeId types = ok outputType"
    "fields ! k = attachComment
      (key @ '': '' @ ''(input: '' @ inputType @ '') => Promise<'' @ outputType @ ''>'') opts"
    unfolding handleApi_eq_ok sourceOfApi_def by blast
  with len s show "\<exists>inputType outputType fields.
            getFieldType n inputTypeId types = ok inputType
            \<and> getFieldType n outputTypeId types = ok outputType
            \<and> length fields = length entries
            \<and> fields ! k = attachComment
                (key @ '': '' @ ''(input: '' @ inputType @ '') => Promise<'' @ outputType @ ''>'')
                opts
            \<and> s = sourceOfEntries fields"
    by blast
next
  show "attachComment result opts =
        (case (truthy (description opts), truthy (deprecated opts)) of
           (None, None) \<Rightarrow> result
         | (Some d, None) \<Rightarrow> ''/**\<newline>* @remarks '' @ d @ ''\<newline>*/\<newline>'' @ result
         | (None, Some p) \<Rightarrow> ''/**\<newline>* @depcreated '' @ p @ ''\<newline>*/\<newline>'' @ result
         | (Some d, Some p) \<Rightarrow>
             ''/**\<newline>* @remarks '' @ d @ ''\<newline>* @depcreated '' @ p @ ''\<newline>*/\<newline>''
             @ result)"
    by (rule attachComment_cases)
qed

theorem endpoint_signature_witness:
  "handleApi (Suc 0) [(1, FormatType TString None)] 1 1 = ok ''(input: string) => Promise<string>''
   \<and> handleEntries (Suc 0) [(1, FormatType TString None)]
        [(''ping'', Api 1 1 (Options (Some ''health check'') None))]
      = ok (sourceOfEntries
          [''/**\<newline>* @remarks health check\<newline>*/\<newline>ping: (input: string) => Promise<string>''])
   \<and> (\<exists>inputType outputType fields.
        getFieldType (Suc 0) 1 [(1, FormatType TString None)] = ok inputType
        \<and> getFieldType (Suc 0) 1 [(1, FormatType TString None)] = ok outputType
        \<and> length fields = length [(''ping'', Api 1 1 (Options (Some ''health check'') None))]
        \<and> fields ! 0 = attachComment
            (''ping'' @ '': '' @ ''(input: '' @ inputType @ '') => Promise<'' @ outputType @ ''>'')
            (Options (Some ''health check'') None)
        \<and> sourceOfEntries
          [''/**\<newline>* @remarks health check\<newline>*/\<newline>ping: (input: string) => Promise<string>'']
          = sourceOfEntries fields)
   \<and> codegen Some (Suc 0) (FormatResult [(1, FormatType TString None)]
        [(''ping'', Api 1 1 (Options None None))])
      = ok (sourceOfModule False [[]]
          (sourceOfEntries [''ping: (input: string) => Promise<string>'']))"
proof -
  let ?types = "[(1, FormatType TString None)]"
  let ?entries = "[(''ping'', Api 1 1 (Options (Some ''health check'') None))]"
  let ?s = "sourceOfEntries
    [''/**\<newline>* @remarks health check\<newline>*/\<newline>ping: (input: string) => Promise<string>'']"
  note inst = endpoint_signature [of "Suc 0" 1 ?types "''string''" 1 "''string''" ?entries ?s 0
      "''ping''" "Options (Some ''health check'') None"]
  have r: "getFieldType (Suc 0) 1 ?types = ok ''string''"
    by (simp add: getFieldType_unnamed)
  from inst r have api: "handleApi (Suc 0) ?types 1 1 = ok ''(input: string) => Promise<string>''"
    by simp
  then have e: "handleEntries (Suc 0) ?types ?entries = ok ?s"
    by (simp add: handleEntries_single_api attachComment_def)
  from inst have "handleEntries (Suc 0) ?types ?entries = ok ?s \<and> 0 < length ?entries
        \<and> ?entries ! 0 = (''ping'', Api 1 1 (Options (Some ''health check'') None))
      \<longrightarrow> (\<exists>inputType outputType fields.
        getFieldType (Suc 0) 1 ?types = ok inputType
        \<and> getFieldType (Suc 0) 1 ?types = ok outputType
        \<and> length fields = length ?entries
        \<and> fields ! 0 = attachComment
            (''ping'' @ '': '' @ ''(input: '' @ inputType @ '') => Promise<'' @ outputType @ ''>'')
            (Options (Some ''health check'') None)
        \<and> ?s = sourceOfEntries fields)"
    by (rule conjunct1 [OF conjunct2])
  with e have "\<exists>inputType outputType fields.
        getFieldType (Suc 0) 1 ?types = ok inputType
        \<and> getFieldType (Suc 0) 1 ?types = ok outputType
        \<and> length fields = length ?entries
        \<and> fields ! 0 = attachComment
            (''ping'' @ '': '' @ ''(input: '' @ inputType @ '') => Promise<'' @ outputType @ ''>'')
            (Options (Some ''health check'') None)
        \<and> ?s = sourceOfEntries fields"
    by simp
  moreover from api have "codegen Some (Suc 0) (FormatResult ?types
        [(''ping'', Api 1 1 (Options None None))])
      = ok (sourceOfModule False [[]]
          (sourceOfEntries [''ping: (input: string) => Promise<string>'']))"
    by (simp add: handleEntries_single_api attachComment_def codegen_def codegenSource_def
        handleType_inline hasJsonType_def)
  ultimately show ?thesis using api e by blast
qed

section \<open>The depth bound\<close>

text \<open>A call that returns or throws within depth \<open>n\<close> does the same at every greater depth:
  the bound only cuts off calls that have not finished.\<close>

lemma handleFields_mono:
  assumes "handleFields n types fields = Some r" and "n \<le> m"
  shows "handleFields m types fields = Some r"
  using assms(1) unfolding handleFields_def
proof (rule mapM_mono)
  fix x :: "string \<times> field" and a
  obtain key field where x: "x = (key, field)" by (cases x)
  assume "(case x of (key, field) \<Rightarrow>
      bind (getFieldType n (fieldTypeId field) types)
        (\<lambda>result. ok (attachComment (key @ '': '' @ result) (fieldOptions field)))) = Some a"
  then have "bind (getFieldType n (fieldTypeId field) types)
        (\<lambda>result. ok (attachComment (key @ '': '' @ result) (fieldOptions field))) = Some a"
    by (simp add: x)
  then have "bind (getFieldType m (fieldTypeId field) types)
        (\<lambda>result. ok (attachComment (key @ '': '' @ result) (fieldOptions field))) = Some a"
    by (rule bind_mono) (simp_all add: getFieldType_mono [OF _ assms(2)])
  then show "(case x of (key, field) \<Rightarrow>
      bind (getFieldType m (fieldTypeId field) types)
        (\<lambda>result. ok (attachComment (key @ '': '' @ result) (fieldOptions field)))) = Some a"
    by (simp add: x)
qed

lemma handleType_mono:
  assumes "handleType n types exportSet typeId formatType = Some r" and "n \<le> m"
  shows "handleType m types exportSet typeId formatType = Some r"
proof (cases "objectFields (ftype formatType)")
  case None
  with assms(1) show ?thesis by (simp add: handleType_inline)
next
  case (Some fields)
  from assms(1) show ?thesis
    unfolding handleType_object [OF Some]
    by (rule bind_mono) (simp_all add: handleFields_mono [OF _ assms(2)])
qed

lemma handleTypes_mono:
  assumes "handleTypes n types exportSet es = Some r" and "n \<le> m"
  shows "handleTypes m types exportSet es = Some r"
  using assms(1)
proof (induction es arbitrary: exportSet r)
  case Nil
  then show ?case by simp
next
  case (Cons e es)
  obtain typeId formatType where e: "e = (typeId, formatType)" by (cases e)
  from Cons.prems have "bind (handleType n types exportSet typeId formatType) (\<lambda>(exportSet', d).
       bind (handleTypes n types exportSet' es) (\<lambda>(exportSet'', ds).
         ok (exportSet'', d # ds))) = Some r"
    by (simp add: e)
  then have "bind (handleType m types exportSet typeId formatType) (\<lambda>(exportSet', d).
       bind (handleTypes m types exportSet' es) (\<lambda>(exportSet'', ds).
         ok (exportSet'', d # ds))) = Some r"
  proof (rule bind_mono)
    fix a assume "handleType n types exportSet typeId formatType = Some a"
    then show "handleType m types exportSet typeId formatType = Some a"
      using assms(2) by (rule handleType_mono)
  next
    fix x :: "string set \<times> string"
    obtain mid d where x: "x = (mid, d)" by (cases x)
    assume "(case x of (exportSet', d) \<Rightarrow>
       bind (handleTypes n types exportSet' es) (\<lambda>(exportSet'', ds).
         ok (exportSet'', d # ds))) = Some r"
    then have "bind (handleTypes n types mid es) (\<lambda>(exportSet'', ds).
         ok (exportSet'', d # ds)) = Some r"
      by (simp add: x)
    then have "bind (handleTypes m types mid es) (\<lambda>(exportSet'', ds).
         ok (exportSet'', d # ds)) = Some r"
      by (rule bind_mono) (simp_all add: Cons.IH)
    then show "(case x of (exportSet', d) \<Rightarrow>
       bind (handleTypes m types exportSet' es) (\<lambda>(exportSet'', ds).
         ok (exportSet'', d # ds))) = Some r"
      by (simp add: x)
  qed
  then show ?case by (simp add: e)
qed

lemma handleApi_mono:
  assumes "handleApi n types inputTypeId outputTypeId = Some r" and "n \<le> m"
  shows "handleApi m types inputTypeId outputTypeId = Some r"
  using assms(1) unfolding handleApi_def
proof (rule bind_mono)
  fix a assume "getFieldType n inputTypeId types = Some a"
  then show "getFieldType m inputTypeId types = Some a"
    using assms(2) by (rule getFieldType_mono)
next
  fix inputType
  assume "bind (getFieldType n outputTypeId types)
    (\<lambda>outputType. ok (sourceOfApi inputType outputType)) = Some r"
  then show "bind (getFieldType m outputTypeId types)
    (\<lambda>outputType. ok (sourceOfApi inputType outputType)) = Some r"
    by (rule bind_mono) (simp_all add: getFieldType_mono [OF _ assms(2)])
qed

lemma handleEntries_mono:
  assumes "handleEntries n types entries = Some r" and "n \<le> m"
  shows "handleEntries m types entries = Some r"
  using assms
proof (induction n types entries arbitrary: r rule: handleEntries.induct)
  case (1 n types entries)
  note le = "1.prems"(2)
  from "1.prems"(1) have "bind (mapM (\<lambda>(key, field).
             case field of
               Api inputTypeId outputTypeId opts \<Rightarrow>
                 bind (handleApi n types inputTypeId outputTypeId)
                   (\<lambda>result. ok (attachComment (key @ '': '' @ result) opts))
             | Entries sub \<Rightarrow>
                 bind (handleEntries n types sub) (\<lambda>result. ok (key @ '': '' @ result)))
           entries)
       (\<lambda>fields. ok (sourceOfEntries fields)) = Some r"
    by (subst (asm) handleEntries.simps)
  then have "bind (mapM (\<lambda>(key, field).
             case field of
               Api inputTypeId outputTypeId opts \<Rightarrow>
                 bind (handleApi m types inputTypeId outputTypeId)
                   (\<lambda>result. ok (attachComment (key @ '': '' @ result) opts))
             | Entries sub \<Rightarrow>
                 bind (handleEntries m types sub) (\<lambda>result. ok (key @ '': '' @ result)))
           entries)
       (\<lambda>fields. ok (sourceOfEntries fields)) = Some r"
  proof (rule bind_mono)
    fix a
    assume "mapM (\<lambda>(key, field).
             case field of
               Api inputTypeId outputTypeId opts \<Rightarrow>
                 bind (handleApi n types inputTypeId outputTypeId)
                   (\<lambda>result. ok (attachComment (key @ '': '' @ result) opts))
             | Entries sub \<Rightarrow>
                 bind (handleEntries n types sub) (\<lambda>result. ok (key @ '': '' @ result)))
           entries = Some a"
    then show "mapM (\<lambda>(key, field).
             case field of
               Api inputTypeId outputTypeId opts \<Rightarrow>
                 bind (handleApi m types inputTypeId outputTypeId)
                   (\<lambda>result. ok (attachComment (key @ '': '' @ result) opts))
             | Entries sub \<Rightarrow>
                 bind (handleEntries m types sub) (\<lambda>result. ok (key @ '': '' @ result)))
           entries = Some a"
    proof (rule mapM_mono)
      fix x :: "string \<times> entry" and b
      obtain key field where x: "x = (key, field)" by (cases x)
      assume member: "x \<in> set entries"
        and low: "(case x of (key, field) \<Rightarrow>
             case field of
               Api inputTypeId outputTypeId opts \<Rightarrow>
                 bind (handleApi n types inputTypeId outputTypeId)
                   (\<lambda>result. ok (attachComment (key @ '': '' @ result) opts))
             | Entries sub \<Rightarrow>
                 bind (handleEntries n types sub) (\<lambda>result. ok (key @ '': '' @ result))) = Some b"
      show "(case x of (key, field) \<Rightarrow>
             case field of
               Api inputTypeId outputTypeId opts \<Rightarrow>
                 bind (handleApi m types inputTypeId outputTypeId)
                   (\<lambda>result. ok (attachComment (key @ '': '' @ result) opts))
             | Entries sub \<Rightarrow>
                 bind (handleEntries m types sub) (\<lambda>result. ok (key @ '': '' @ result))) = Some b"
      proof (cases field)
        case (Api inputTypeId outputTypeId opts)
        from low have "bind (handleApi n types inputTypeId outputTypeId)
            (\<lambda>result. ok (attachComment (key @ '': '' @ result) opts)) = Some b"
          by (simp add: x Api)
        then have "bind (handleApi m types inputTypeId outputTypeId)
            (\<lambda>result. ok (attachComment (key @ '': '' @ result) opts)) = Some b"
          by (rule bind_mono) (simp_all add: handleApi_mono [OF _ le])
        then show ?thesis by (simp add: x Api)
      next
        case (Entries sub)
        from low have "bind (handleEntries n types sub) (\<lambda>result. ok (key @ '': '' @ result))
            = Some b"
          by (simp add: x Entries)
        then have "bind (handleEntries m types sub) (\<lambda>result. ok (key @ '': '' @ result))
            = Some b"
          by (rule bind_mono) (simp_all add: "1.IH" [OF member [unfolded x] refl Entries _ le])
        then show ?thesis by (simp add: x Entries)
      qed
    qed
  qed simp
  then show ?case by (subst handleEntries.simps)
qed

lemma codegenSource_mono:
  assumes "codegenSource n formatResult = Some r" and "n \<le> m"
  shows "codegenSource m formatResult = Some r"
  using assms(1) unfolding codegenSource_def
proof (rule bind_mono)
  fix a assume "handleTypes n (resultTypes formatResult) {} (resultTypes formatResult) = Some a"
  then show "handleTypes m (resultTypes formatResult) {} (resultTypes formatResult) = Some a"
    using assms(2) by (rule handleTypes_mono)
next
  fix x :: "string set \<times> string list"
  obtain exportSet definitions where x: "x = (exportSet, definitions)" by (cases x)
  assume "(case x of (exportSet, definitions) \<Rightarrow>
      bind (handleEntries n (resultTypes formatResult) (resultEntries formatResult))
        (\<lambda>entries.
           ok (sourceOfModule (hasJsonType (resultTypes formatResult)) definitions entries)))
    = Some r"
  then have "bind (handleEntries n (resultTypes formatResult) (resultEntries formatResult))
        (\<lambda>entries.
           ok (sourceOfModule (hasJsonType (resultTypes formatResult)) definitions entries))
    = Some r"
    by (simp add: x)
  then have "bind (handleEntries m (resultTypes formatResult) (resultEntries formatResult))
        (\<lambda>entries.
           ok (sourceOfModule (hasJsonType (resultTypes formatResult)) definitions entries))
    = Some r"
    by (rule bind_mono) (simp_all add: handleEntries_mono [OF _ assms(2)])
  then show "(case x of (exportSet, definitions) \<Rightarrow>
      bind (handleEntries m (resultTypes formatResult) (resultEntries formatResult))
        (\<lambda>entries.
           ok (sourceOfModule (hasJsonType (resultTypes formatResult)) definitions entries)))
    = Some r"
    by (simp add: x)
qed

lemma codegen_mono:
  assumes "codegen format n formatResult = Some r" and "n \<le> m"
  shows "codegen format m formatResult = Some r"
  using assms(1) unfolding codegen_def
  by (rule bind_mono) (simp_all add: codegenSource_mono [OF _ assms(2)])

section \<open>The assembler\<close>

lemma startsWith_append [simp]: "startsWith (p @ s) p"
  by (induction p) simp_all







































end
